theory Spec2Isabelle
  imports Complex_Main "HOL-Library.AList"
begin

section \<open>Data model of \<^verbatim>\<open>main.go\<close>\<close>

text \<open>
  The development embeds \<^verbatim>\<open>src/main.go\<close>, the game server that the README starts
  with \<^verbatim>\<open>go run main.go\<close> and whose snapshots the HTML client renders. The
  repository holds two more revisions of the same file, an older one without Boss
  and game states and a variant with items, fire-power and enemy bullets; they are
  not embedded. Conventions of the embedding:
  \<^item> \<^verbatim>\<open>float64\<close> coordinates and velocities are \<open>real\<close>: rounding, infinities and NaN
    are not modelled; \<^verbatim>\<open>float64(n)\<close> of an \<^verbatim>\<open>int\<close> is \<open>real_of_int n\<close>.
  \<^item> Go's \<^verbatim>\<open>int\<close> is \<open>int\<close>: the counters move by at most 500 per event, and
    64-bit wrap-around is not modelled.
  \<^item> A Go \<^verbatim>\<open>map[string]*T\<close> is an association list \<open>(string \<times> T) list\<close>;
    \<^verbatim>\<open>m[k] = v\<close> is \<open>AList.update k v\<close>, \<^verbatim>\<open>delete(m, k)\<close> is \<open>AList.delete k\<close>,
    and every \<^verbatim>\<open>range\<close> visits the entries in the order of the list. Go leaves
    that order unspecified; no theorem below assumes a particular one.
  \<^item> \<^verbatim>\<open>uuid.New().String()\<close> is an identifier handed to the function as an argument;
    \<^verbatim>\<open>rand.Intn(n)\<close> is a raw draw handed in as an argument and reduced modulo \<open>n\<close>.
  \<^item> The network is not modelled. Of the goroutines and mutexes the model keeps the
    critical sections: a tick, a spawn tick and the handling of one message each run
    atomically, and the admission of a client is two steps, the choice of a room
    under \<^verbatim>\<open>gamesMutex\<close> and the insertion of the player under the room's mutex,
    between which other steps may run.
\<close>

record Entity =
  ID :: string
  Type :: string
  X :: real
  Y :: real
  VelocityX :: real
  VelocityY :: real
  Width :: int
  Height :: int
  Health :: int

text \<open>
  \<^verbatim>\<open>Player\<close> embeds \<^verbatim>\<open>Entity\<close> and declares a \<^verbatim>\<open>Health\<close> of its own, which
  shadows the embedded one: \<^verbatim>\<open>player.Health\<close> in the source is \<open>Player.Health\<close> here,
  and the embedded \<open>Entity.Health\<close> is set to 100 once and never read.
\<close>

record Player = Entity +
  Name :: string
  Score :: int
  Health :: int
  Color :: string

record GameRoom =
  ID :: string
  Players :: "(string \<times> Player) list"
  Bullets :: "(string \<times> Entity) list"
  Enemies :: "(string \<times> Entity) list"
  Boss :: "Entity option"
  EnemiesDefeated :: int
  BossSpawned :: bool
  GameState :: string

definition Intn :: "nat \<Rightarrow> nat \<Rightarrow> int" where
  "Intn n raw = int (raw mod n)"

definition newGameRoom :: "string \<Rightarrow> GameRoom" where
  "newGameRoom roomID =
     \<lparr>GameRoom.ID = roomID, Players = [], Bullets = [], Enemies = [], Boss = None,
      EnemiesDefeated = 0, BossSpawned = False, GameState = ''playing''\<rparr>"

section \<open>Collision test\<close>

definition checkCollision :: "'a Entity_scheme \<Rightarrow> 'b Entity_scheme \<Rightarrow> bool" where
  "checkCollision a b \<longleftrightarrow>
     X a < X b + real_of_int (Width b) \<and>
     X a + real_of_int (Width a) > X b \<and>
     Y a < Y b + real_of_int (Height b) \<and>
     Y a + real_of_int (Height a) > Y b"

section \<open>Spawning\<close>

definition createBullet :: "GameRoom \<Rightarrow> Player \<Rightarrow> string \<Rightarrow> GameRoom" where
  "createBullet gameRoom player bulletID =
     (if GameState gameRoom \<noteq> ''playing'' then gameRoom
      else
        let bullet =
          \<lparr>Entity.ID = bulletID, Type = ''bullet'',
           X = X player + real_of_int (Width player) / 2 - 2.5,
           Y = Y player, VelocityX = 0, VelocityY = - 5,
           Width = 5, Height = 10, Health = 0\<rparr>
        in gameRoom\<lparr>Bullets := AList.update bulletID bullet (Bullets gameRoom)\<rparr>)"


definition createEnemy :: "GameRoom \<Rightarrow> string \<Rightarrow> nat \<Rightarrow> nat \<Rightarrow> nat \<Rightarrow> GameRoom" where
  "createEnemy gameRoom enemyID r1 r2 r3 =
     (if GameState gameRoom \<noteq> ''playing'' \<or> BossSpawned gameRoom then gameRoom
      else
        let enemy =
          \<lparr>Entity.ID = enemyID, Type = ''enemy'',
           X = real_of_int (Intn 600 r1), Y = 0,
           VelocityX = real_of_int (Intn 3 r2 - 1),
           VelocityY = real_of_int (Intn 2 r3 + 1),
           Width = 30, Height = 30, Health = 1\<rparr>
        in gameRoom\<lparr>Enemies := AList.update enemyID enemy (Enemies gameRoom)\<rparr>)"

definition createBoss :: "GameRoom \<Rightarrow> string \<Rightarrow> GameRoom" where
  "createBoss gameRoom uuid =
     (let boss =
        \<lparr>Entity.ID = ''boss-'' @ uuid, Type = ''boss'',
         X = real_of_int (400 - 50), Y = 50, VelocityX = 2, VelocityY = 0,
         Width = 100, Height = 80, Health = 100\<rparr>
      in gameRoom\<lparr>Boss := Some boss, BossSpawned := True\<rparr>)"

text \<open>The \<^verbatim>\<open>enemyTicker\<close> branch of \<^verbatim>\<open>gameLoop\<close>.\<close>

definition enemyTick :: "GameRoom \<Rightarrow> string \<Rightarrow> nat \<Rightarrow> nat \<Rightarrow> nat \<Rightarrow> GameRoom" where
  "enemyTick gameRoom uuid r1 r2 r3 =
     (if GameState gameRoom = ''playing'' then
        (if EnemiesDefeated gameRoom \<ge> 20 \<and> \<not> BossSpawned gameRoom
         then createBoss gameRoom uuid
         else createEnemy gameRoom uuid r1 r2 r3)
      else gameRoom)"

section \<open>The simulation tick\<close>

text \<open>First loop of \<^verbatim>\<open>updateGame\<close>: one player is moved and clamped to the field.\<close>

definition movePlayer :: "Player \<Rightarrow> Player" where
  "movePlayer player =
     (let p1 = player\<lparr>X := X player + VelocityX player\<rparr>;
          p2 = p1\<lparr>Y := Y p1 + VelocityY p1\<rparr>;
          p3 = (if X p2 < 0 then p2\<lparr>X := 0\<rparr> else p2);
          p4 = (if X p3 > 770 then p3\<lparr>X := 770\<rparr> else p3);
          p5 = (if Y p4 < 0 then p4\<lparr>Y := 0\<rparr> else p4)
      in if Y p5 > 570 then p5\<lparr>Y := 570\<rparr> else p5)"

text \<open>
  The inner \<^verbatim>\<open>range gameRoom.Enemies\<close> of the bullet loop stops at the first enemy
  the bullet collides with.
\<close>

fun hitEnemy :: "Entity \<Rightarrow> (string \<times> Entity) list \<Rightarrow> string option" where
  "hitEnemy bullet [] = None"
| "hitEnemy bullet ((enemyID, enemy) # rest) =
     (if checkCollision bullet enemy then Some enemyID else hitEnemy bullet rest)"

text \<open>
  The score loop: the first player whose position equals the bullet's gets 10
  points, and the loop breaks.
\<close>

fun creditShooter :: "Entity \<Rightarrow> (string \<times> Player) list \<Rightarrow> (string \<times> Player) list" where
  "creditShooter bullet [] = []"
| "creditShooter bullet ((pid, player) # rest) =
     (if X player = X bullet \<and> Y player = Y bullet
      then (pid, player\<lparr>Score := Score player + 10\<rparr>) # rest
      else (pid, player) # creditShooter bullet rest)"

definition bulletVsEnemies :: "string \<Rightarrow> Entity \<Rightarrow> GameRoom \<Rightarrow> GameRoom" where
  "bulletVsEnemies bid bullet room =
     (case hitEnemy bullet (Enemies room) of
        None \<Rightarrow> room
      | Some enemyID \<Rightarrow>
          room\<lparr>Bullets := AList.delete bid (Bullets room),
               Enemies := AList.delete enemyID (Enemies room),
               EnemiesDefeated := EnemiesDefeated room + 1,
               Players := creditShooter bullet (Players room)\<rparr>)"

text \<open>The body of the branch taken when the bullet collides with the Boss.\<close>

definition damageBoss :: "string \<Rightarrow> Entity \<Rightarrow> GameRoom \<Rightarrow> GameRoom" where
  "damageBoss bid boss room =
     (let room1 = room\<lparr>Bullets := AList.delete bid (Bullets room)\<rparr>;
          boss1 = boss\<lparr>Entity.Health := Entity.Health boss - 1\<rparr>
      in if Entity.Health boss1 \<le> 0
         then room1\<lparr>GameState := ''clear'', Boss := None,
                    Players := map (\<lambda>(pid, player). (pid, player\<lparr>Score := Score player + 500\<rparr>))
                                 (Players room1)\<rparr>
         else room1\<lparr>Boss := Some boss1\<rparr>)"

text \<open>
  One iteration of \<^verbatim>\<open>for id, bullet := range gameRoom.Bullets\<close>. The bullet is a
  pointer, so its new position is written to the map before anything is tested.
  The \<^verbatim>\<open>Type\<close> of the bullet is not read.
\<close>

definition bulletStep :: "string \<times> Entity \<Rightarrow> GameRoom \<Rightarrow> GameRoom" where
  "bulletStep = (\<lambda>(bid, b) gameRoom.
     let bullet = b\<lparr>X := X b + VelocityX b, Y := Y b + VelocityY b\<rparr>;
         room = gameRoom\<lparr>Bullets := AList.update bid bullet (Bullets gameRoom)\<rparr>
     in if Y bullet < 0 \<or> Y bullet > 600 \<or> X bullet < 0 \<or> X bullet > 800
        then room\<lparr>Bullets := AList.delete bid (Bullets room)\<rparr>
        else (case Boss room of
                Some boss \<Rightarrow>
                  if checkCollision bullet boss then damageBoss bid boss room
                  else bulletVsEnemies bid bullet room
              | None \<Rightarrow> bulletVsEnemies bid bullet room))"

definition allPlayersDead :: "(string \<times> Player) list \<Rightarrow> bool" where
  "allPlayersDead players = list_all (\<lambda>(pid, p). \<not> Player.Health p > 0) players"

text \<open>
  The damage block that the enemy loop (10) and the Boss loop (20) both contain:
  subtract, floor at 0, and when the floor was reached look whether every player
  is dead.
\<close>

definition hurtPlayer :: "int \<Rightarrow> string \<Rightarrow> Player \<Rightarrow> GameRoom \<Rightarrow> GameRoom" where
  "hurtPlayer damage pid player room =
     (let p1 = player\<lparr>Player.Health := Player.Health player - damage\<rparr>
      in if Player.Health p1 \<le> 0
         then (let room1 = room\<lparr>Players := AList.update pid (p1\<lparr>Player.Health := 0\<rparr>) (Players room)\<rparr>
               in if allPlayersDead (Players room1) then room1\<lparr>GameState := ''gameover''\<rparr>
                  else room1)
         else room\<lparr>Players := AList.update pid p1 (Players room)\<rparr>)"

fun hitPlayer :: "Entity \<Rightarrow> (string \<times> Player) list \<Rightarrow> (string \<times> Player) option" where
  "hitPlayer enemy [] = None"
| "hitPlayer enemy ((pid, player) # rest) =
     (if checkCollision enemy player then Some (pid, player) else hitPlayer enemy rest)"

text \<open>One iteration of \<^verbatim>\<open>for id, enemy := range gameRoom.Enemies\<close>.\<close>

definition enemyStep :: "string \<times> Entity \<Rightarrow> GameRoom \<Rightarrow> GameRoom" where
  "enemyStep = (\<lambda>(eid, e) gameRoom.
     let enemy = e\<lparr>X := X e + VelocityX e, Y := Y e + VelocityY e\<rparr>;
         room = gameRoom\<lparr>Enemies := AList.update eid enemy (Enemies gameRoom)\<rparr>
     in if Y enemy > 600 then room\<lparr>Enemies := AList.delete eid (Enemies room)\<rparr>
        else (case hitPlayer enemy (Players room) of
                None \<Rightarrow> room
              | Some (pid, player) \<Rightarrow>
                  (let room1 = hurtPlayer 10 pid player room
                   in room1\<lparr>Enemies := AList.delete eid (Enemies room1)\<rparr>)))"

text \<open>One iteration of the Boss-body loop over the players; it has no \<^verbatim>\<open>break\<close>.\<close>

definition bossTouch :: "Entity \<Rightarrow> string \<times> Player \<Rightarrow> GameRoom \<Rightarrow> GameRoom" where
  "bossTouch boss = (\<lambda>(pid, player) room.
     if checkCollision boss player then hurtPlayer 20 pid player room else room)"

definition bossPhase :: "GameRoom \<Rightarrow> string \<Rightarrow> nat \<Rightarrow> nat \<Rightarrow> nat \<Rightarrow> GameRoom" where
  "bossPhase gameRoom bulletID r1 r2 r3 =
     (case Boss gameRoom of
        None \<Rightarrow> gameRoom
      | Some b \<Rightarrow>
          let b1 = b\<lparr>X := X b + VelocityX b\<rparr>;
              boss = (if X b1 \<le> 0 \<or> X b1 + real_of_int (Width b1) \<ge> 800
                      then b1\<lparr>VelocityX := VelocityX b1 * (- 1)\<rparr> else b1);
              room1 = gameRoom\<lparr>Boss := Some boss\<rparr>;
              room2 =
                (if Intn 60 r1 < 5 then
                   let bullet =
                     \<lparr>Entity.ID = bulletID, Type = ''bossBullet'',
                      X = X boss + real_of_int (Width boss) / 2,
                      Y = Y boss + real_of_int (Height boss),
                      VelocityX = real_of_int (Intn 5 r2 - 2),
                      VelocityY = real_of_int (Intn 3 r3 + 2),
                      Width = 10, Height = 10, Health = 0\<rparr>
                   in room1\<lparr>Bullets := AList.update bulletID bullet (Bullets room1)\<rparr>
                 else room1)
          in fold (bossTouch boss) (Players room2) room2)"

definition updateGame :: "GameRoom \<Rightarrow> string \<Rightarrow> nat \<Rightarrow> nat \<Rightarrow> nat \<Rightarrow> GameRoom" where
  "updateGame gameRoom bulletID r1 r2 r3 =
     (if GameState gameRoom \<noteq> ''playing'' then gameRoom
      else
        let room1 = gameRoom\<lparr>Players := map (\<lambda>(pid, player). (pid, movePlayer player))
                                            (Players gameRoom)\<rparr>;
            room2 = fold bulletStep (Bullets room1) room1;
            room3 = fold enemyStep (Enemies room2) room2
        in bossPhase room3 bulletID r1 r2 r3)"

section \<open>Messages of a connected client\<close>

text \<open>
  The message loop of \<^verbatim>\<open>handleWebSocket\<close> holds a pointer to the client's player
  and one to its room. The player is the entry of \<^verbatim>\<open>gameRoom.Players\<close> under the
  client's id, until the read error that removes it and ends the loop; so a message
  of a client that is not in the room is never handled.

  \<^verbatim>\<open>move\<close>: a component that is missing or not a number (\<open>None\<close>) leaves the
  velocity as it was.
\<close>

definition handleMove :: "GameRoom \<Rightarrow> string \<Rightarrow> real option \<Rightarrow> real option \<Rightarrow> GameRoom" where
  "handleMove gameRoom clientID vx vy =
     (case map_of (Players gameRoom) clientID of
        None \<Rightarrow> gameRoom
      | Some player \<Rightarrow>
          let p1 = (case vx of Some v \<Rightarrow> player\<lparr>VelocityX := v\<rparr> | None \<Rightarrow> player);
              p2 = (case vy of Some v \<Rightarrow> p1\<lparr>VelocityY := v\<rparr> | None \<Rightarrow> p1)
          in gameRoom\<lparr>Players := AList.update clientID p2 (Players gameRoom)\<rparr>)"

definition handleShoot :: "GameRoom \<Rightarrow> string \<Rightarrow> string \<Rightarrow> GameRoom" where
  "handleShoot gameRoom clientID bulletID =
     (case map_of (Players gameRoom) clientID of
        None \<Rightarrow> gameRoom
      | Some player \<Rightarrow> createBullet gameRoom player bulletID)"

text \<open>
  \<^verbatim>\<open>restart\<close>: the loop over the players draws two numbers for each player, the
  \<open>k\<close>-th draw being \<open>rnd k\<close>.
\<close>

fun resetPlayers :: "(nat \<Rightarrow> nat) \<Rightarrow> nat \<Rightarrow> (string \<times> Player) list \<Rightarrow> (string \<times> Player) list" where
  "resetPlayers rnd k [] = []"
| "resetPlayers rnd k ((pid, p) # rest) =
     (pid, p\<lparr>Player.Health := 100, Score := 0,
             X := real_of_int (300 + Intn 300 (rnd k)),
             Y := real_of_int (300 + Intn 300 (rnd (k + 1)))\<rparr>)
     # resetPlayers rnd (k + 2) rest"

definition handleRestart :: "GameRoom \<Rightarrow> (nat \<Rightarrow> nat) \<Rightarrow> GameRoom" where
  "handleRestart gameRoom rnd =
     (if GameState gameRoom = ''gameover'' \<or> GameState gameRoom = ''clear''
      then gameRoom\<lparr>GameState := ''playing'', EnemiesDefeated := 0, BossSpawned := False,
                    Boss := None, Enemies := [], Bullets := [],
                    Players := resetPlayers rnd 0 (Players gameRoom)\<rparr>
      else gameRoom)"

text \<open>The read error: the player leaves the room.\<close>

definition handleDisconnect :: "GameRoom \<Rightarrow> string \<Rightarrow> GameRoom" where
  "handleDisconnect gameRoom clientID =
     gameRoom\<lparr>Players := AList.delete clientID (Players gameRoom)\<rparr>"

section \<open>Events of one room\<close>

datatype RoomEvent =
    Move string "real option" "real option"
  | Shoot string string
  | Restart string "nat \<Rightarrow> nat"
  | Disconnect string
  | Tick string nat nat nat
  | EnemyTick string nat nat nat

fun roomStep :: "GameRoom \<Rightarrow> RoomEvent \<Rightarrow> GameRoom" where
  "roomStep room (Move clientID vx vy) = handleMove room clientID vx vy"
| "roomStep room (Shoot clientID bulletID) = handleShoot room clientID bulletID"
| "roomStep room (Restart clientID rnd) =
     (if map_of (Players room) clientID = None then room else handleRestart room rnd)"
| "roomStep room (Disconnect clientID) = handleDisconnect room clientID"
| "roomStep room (Tick bulletID r1 r2 r3) = updateGame room bulletID r1 r2 r3"
| "roomStep room (EnemyTick uuid r1 r2 r3) = enemyTick room uuid r1 r2 r3"

definition roomRun :: "GameRoom \<Rightarrow> RoomEvent list \<Rightarrow> GameRoom" where
  "roomRun room evs = foldl roomStep room evs"

fun isRestart :: "RoomEvent \<Rightarrow> bool" where
  "isRestart (Restart clientID rnd) = True"
| "isRestart ev = False"

text \<open>
  The number of steps of a run at which a Boss appears in a room that had none.
\<close>

fun bossSpawns :: "GameRoom \<Rightarrow> RoomEvent list \<Rightarrow> nat" where
  "bossSpawns room [] = 0"
| "bossSpawns room (ev # evs) =
     (if Boss room = None \<and> Boss (roomStep room ev) \<noteq> None then 1 else 0)
     + bossSpawns (roomStep room ev) evs"

section \<open>The room registry\<close>

definition playerColors :: "string list" where
  "playerColors = [''#FF0000'', ''#00FF00'', ''#0000FF'', ''#FFFF00'', ''#FF00FF'']"

text \<open>The player that \<^verbatim>\<open>handleWebSocket\<close> builds for a new client.\<close>

definition newPlayer :: "string \<Rightarrow> nat \<Rightarrow> nat \<Rightarrow> nat \<Rightarrow> Player" where
  "newPlayer clientID r1 r2 r3 =
     \<lparr>Entity.ID = clientID, Type = ''player'',
      X = real_of_int (300 + Intn 300 r1), Y = real_of_int (300 + Intn 300 r2),
      VelocityX = 0, VelocityY = 0, Width = 30, Height = 30, Health = 100,
      Name = ''Player-'' @ take 5 clientID, Score = 0, Health = 100,
      Color = playerColors ! nat (Intn (length playerColors) r3)\<rparr>"

text \<open>
  The search loop over \<^verbatim>\<open>gameRooms\<close>: the first room with fewer than four players
  whose state is \<^verbatim>\<open>playing\<close>. The registry maps a room id to the room, and the
  pointer the source holds is the room's key here.
\<close>

fun findRoom :: "(string \<times> GameRoom) list \<Rightarrow> string option" where
  "findRoom [] = None"
| "findRoom ((rid, room) # rest) =
     (if length (Players room) < 4 \<and> GameState room = ''playing'' then Some rid
      else findRoom rest)"

definition addPlayer :: "Player \<Rightarrow> GameRoom \<Rightarrow> GameRoom" where
  "addPlayer player room = room\<lparr>Players := AList.update (Entity.ID player) player (Players room)\<rparr>"

text \<open>
  The first critical section of \<^verbatim>\<open>handleWebSocket\<close>, under \<^verbatim>\<open>gamesMutex\<close>: the
  room that was found, or else a new room, registered under its id \<open>roomID\<close>. The
  result is the registry and the room the handler now points to.
\<close>

definition selectRoom ::
  "(string \<times> GameRoom) list \<Rightarrow> string \<Rightarrow> (string \<times> GameRoom) list \<times> string" where
  "selectRoom gameRooms roomID =
     (case findRoom gameRooms of
        Some rid \<Rightarrow> (gameRooms, rid)
      | None \<Rightarrow> (AList.update roomID (newGameRoom roomID) gameRooms, roomID))"

text \<open>
  The second critical section, under the mutex of the chosen room: the player is
  written to \<^verbatim>\<open>gameRoom.Players\<close>. A room that has meanwhile been deleted from the
  registry has no loop any more and is never ticked or broadcast again; the model
  has dropped it, and the insertion changes nothing.
\<close>

definition joinRoom ::
  "(string \<times> GameRoom) list \<Rightarrow> string \<Rightarrow> Player \<Rightarrow> (string \<times> GameRoom) list" where
  "joinRoom gameRooms rid player = AList.map_entry rid (addPlayer player) gameRooms"

text \<open>
  The state of the server: the registry, and for every handler that has left the
  first critical section and not yet run the second, the room it chose and the
  player it built.
\<close>

datatype Event =
    Select string nat nat nat string
  | Join string
  | InRoom string RoomEvent

text \<open>
  After the \<^verbatim>\<open>ticker\<close> branch of \<^verbatim>\<open>gameLoop\<close> has run \<^verbatim>\<open>updateGame\<close>, a room
  without players is deleted from the registry and its loop returns.
\<close>

fun isTick :: "RoomEvent \<Rightarrow> bool" where
  "isTick (Tick bulletID r1 r2 r3) = True"
| "isTick ev = False"

fun step ::
  "(string \<times> GameRoom) list \<times> (string \<times> string \<times> Player) list \<Rightarrow> Event \<Rightarrow>
   (string \<times> GameRoom) list \<times> (string \<times> string \<times> Player) list" where
  "step (gameRooms, pending) (Select clientID r1 r2 r3 roomID) =
     (let player = newPlayer clientID r1 r2 r3;
          (gameRooms1, rid) = selectRoom gameRooms roomID
      in (gameRooms1, AList.update clientID (rid, player) pending))"
| "step (gameRooms, pending) (Join clientID) =
     (case map_of pending clientID of
        None \<Rightarrow> (gameRooms, pending)
      | Some (rid, player) \<Rightarrow> (joinRoom gameRooms rid player, AList.delete clientID pending))"
| "step (gameRooms, pending) (InRoom rid ev) =
     (case map_of gameRooms rid of
        None \<Rightarrow> (gameRooms, pending)
      | Some room \<Rightarrow>
          let room1 = roomStep room ev
          in if isTick ev \<and> length (Players room1) = 0
             then (AList.delete rid gameRooms, pending)
             else (AList.update rid room1 gameRooms, pending))"

text \<open>The registry after a sequence of events, from the empty server.\<close>

definition run :: "Event list \<Rightarrow> (string \<times> GameRoom) list" where
  "run evs = fst (foldl step ([], []) evs)"

section \<open>Invariants\<close>

definition playerOK :: "Player \<Rightarrow> bool" where
  "playerOK p \<longleftrightarrow> 0 \<le> Player.Health p \<and> Player.Health p \<le> 100 \<and> 0 \<le> Score p"

definition playersOK :: "(string \<times> Player) list \<Rightarrow> bool" where
  "playersOK ps \<longleftrightarrow> (\<forall>(pid, p) \<in> set ps. playerOK p)"

definition serverOK ::
  "(string \<times> GameRoom) list \<times> (string \<times> string \<times> Player) list \<Rightarrow> bool" where
  "serverOK = (\<lambda>(gameRooms, pending).
     (\<forall>(rid, room) \<in> set gameRooms. playersOK (Players room)) \<and>
     (\<forall>(clientID, rid, player) \<in> set pending. playerOK player))"

section \<open>Example states\<close>

definition exPlayer :: Player where
  "exPlayer = (newPlayer ''c1'' 100 0 0)\<lparr>X := 400, Y := 300\<rparr>"

definition exBoss :: Entity where
  "exBoss = \<lparr>Entity.ID = ''boss-u'', Type = ''boss'', X = 350, Y = 50, VelocityX = 2,
             VelocityY = 0, Width = 100, Height = 80, Health = 100\<rparr>"

definition exBossBullet :: Entity where
  "exBossBullet = \<lparr>Entity.ID = ''bb'', Type = ''bossBullet'', X = 402, Y = 290, VelocityX = 0,
             VelocityY = 2, Width = 10, Height = 10, Health = 0\<rparr>"

definition exBossRoom :: GameRoom where
  "exBossRoom = \<lparr>GameRoom.ID = ''r1'', Players = [(''c1'', exPlayer)],
      Bullets = [(''bb'', exBossBullet)], Enemies = [], Boss = Some exBoss,
      EnemiesDefeated = 20, BossSpawned = True, GameState = ''playing''\<rparr>"

definition exBullet :: Entity where
  "exBullet = \<lparr>Entity.ID = ''b1'', Type = ''bullet'', X = 400, Y = 305, VelocityX = 0,
             VelocityY = - 5, Width = 5, Height = 10, Health = 0\<rparr>"

definition exEnemy :: Entity where
  "exEnemy = \<lparr>Entity.ID = ''e1'', Type = ''enemy'', X = 390, Y = 295, VelocityX = 1,
             VelocityY = 1, Width = 30, Height = 30, Health = 1\<rparr>"

definition exRoom :: GameRoom where
  "exRoom = \<lparr>GameRoom.ID = ''r1'', Players = [(''c1'', exPlayer)],
      Bullets = [(''b1'', exBullet)], Enemies = [(''e1'', exEnemy)], Boss = None,
      EnemiesDefeated = 0, BossSpawned = False, GameState = ''playing''\<rparr>"

definition exShot :: Entity where
  "exShot = \<lparr>Entity.ID = ''s'', Type = ''bullet'', X = 400, Y = 120, VelocityX = 0,
             VelocityY = - 5, Width = 5, Height = 10, Health = 0\<rparr>"

definition exLastStandRoom :: GameRoom where
  "exLastStandRoom =
     \<lparr>GameRoom.ID = ''r1'', Players = [(''c1'', exPlayer\<lparr>Player.Health := 10\<rparr>)],
      Bullets = [(''s'', exShot)], Enemies = [(''e1'', exEnemy)],
      Boss = Some (exBoss\<lparr>Entity.Health := 1\<rparr>),
      EnemiesDefeated = 20, BossSpawned = True, GameState = ''playing''\<rparr>"

definition exEnemyRoom :: GameRoom where
  "exEnemyRoom = exBossRoom\<lparr>Enemies := [(''e1'', exEnemy)]\<rparr>"

definition exEdgeBullet :: Entity where
  "exEdgeBullet = \<lparr>Entity.ID = ''bb'', Type = ''bossBullet'', X = 800, Y = 320, VelocityX = 2,
             VelocityY = 2, Width = 10, Height = 10, Health = 0\<rparr>"

definition exEdgeEnemy :: Entity where
  "exEdgeEnemy = \<lparr>Entity.ID = ''e1'', Type = ''enemy'', X = 785, Y = 320, VelocityX = 1,
             VelocityY = 1, Width = 30, Height = 30, Health = 1\<rparr>"

definition exEdgeRoom :: GameRoom where
  "exEdgeRoom = exBossRoom\<lparr>Bullets := [(''bb'', exEdgeBullet)], Enemies := [(''e1'', exEdgeEnemy)]\<rparr>"

definition exOverRoom :: GameRoom where
  "exOverRoom = exBossRoom\<lparr>GameState := ''gameover'',
                            Players := [(''c1'', exPlayer\<lparr>Player.Health := 0, Score := 30\<rparr>)]\<rparr>"

definition exAdmissions :: "Event list" where
  "exAdmissions =
     [Select ''c1'' 1 2 3 ''r1'', Join ''c1'', Select ''c2'' 4 5 6 ''r2'', Join ''c2'',
      Select ''c3'' 7 8 9 ''r3'', Join ''c3'', Select ''c4'' 10 11 12 ''r4'', Join ''c4'',
      Select ''c5'' 13 14 15 ''r5'', Join ''c5'']"

definition exRace :: "Event list" where
  "exRace =
     [Select ''c1'' 1 2 3 ''r1'', Join ''c1'', Select ''c2'' 4 5 6 ''r2'', Join ''c2'',
      Select ''c3'' 7 8 9 ''r3'', Join ''c3'',
      Select ''c4'' 10 11 12 ''r4'', Select ''c5'' 13 14 15 ''r5'', Join ''c4'', Join ''c5'']"

definition exHitRoom :: GameRoom where
  "exHitRoom = exRoom\<lparr>Bullets := []\<rparr>"

definition exReadyRoom :: GameRoom where
  "exReadyRoom = exRoom\<lparr>EnemiesDefeated := 19\<rparr>"

definition exSpawnEvents :: "RoomEvent list" where
  "exSpawnEvents =
     [EnemyTick ''e2'' 50 1 0, Tick ''n'' 59 0 0, EnemyTick ''u'' 0 0 0, EnemyTick ''e3'' 70 1 0]"

lemmas ex_defs = exPlayer_def exBoss_def exBossBullet_def exBossRoom_def exBullet_def exEnemy_def
  exRoom_def exShot_def exLastStandRoom_def exEnemyRoom_def exEdgeBullet_def exEdgeEnemy_def exEdgeRoom_def exOverRoom_def exHitRoom_def exAdmissions_def exRace_def exReadyRoom_def exSpawnEvents_def newPlayer_def playerColors_def Intn_def

section \<open>Helper lemmas\<close>


lemma delete_distinct_split:
  "distinct (map fst (pre @ (k, v) # post)) \<Longrightarrow> AList.delete k (pre @ (k, v) # post) = pre @ post"
  by (induction pre) auto

lemma hitEnemy_first:
  "(\<forall>(k, e) \<in> set pre. \<not> checkCollision bullet e) \<Longrightarrow> checkCollision bullet enemy \<Longrightarrow>
   hitEnemy bullet (pre @ (enemyID, enemy) # post) = Some enemyID"
  by (induction pre) auto



lemma bulletStep_enemy:
  fixes b :: Entity
  defines "bullet \<equiv> b\<lparr>X := X b + VelocityX b, Y := Y b + VelocityY b\<rparr>"
  assumes "\<not> (Y bullet < 0 \<or> Y bullet > 600 \<or> X bullet < 0 \<or> X bullet > 800)"
      and "\<forall>boss. Boss room = Some boss \<longrightarrow> \<not> checkCollision bullet boss"
      and "hitEnemy bullet (Enemies room) = Some enemyID"
  shows "bulletStep (bid, b) room =
           room\<lparr>Bullets := AList.delete bid (Bullets room),
                Enemies := AList.delete enemyID (Enemies room),
                EnemiesDefeated := EnemiesDefeated room + 1,
                Players := creditShooter bullet (Players room)\<rparr>"
  using assms
  by (auto simp: bulletStep_def bulletVsEnemies_def Let_def delete_update_same split: option.splits)

lemma checkCollision_geom:
  "X a = X a' \<Longrightarrow> Y a = Y a' \<Longrightarrow> Width a = Width a' \<Longrightarrow> Height a = Height a' \<Longrightarrow>
   checkCollision a c = checkCollision a' c"
  by (simp add: checkCollision_def)

lemma hitEnemy_geom:
  "X a = X a' \<Longrightarrow> Y a = Y a' \<Longrightarrow> Width a = Width a' \<Longrightarrow> Height a = Height a' \<Longrightarrow>
   hitEnemy a es = hitEnemy a' es"
  by (induction es) (auto simp: checkCollision_def)

lemma creditShooter_geom:
  "X a = X a' \<Longrightarrow> Y a = Y a' \<Longrightarrow> creditShooter a ps = creditShooter a' ps"
  by (induction ps) auto

lemma bulletStep_Type:
  fixes b :: Entity
  defines "bullet \<equiv> b\<lparr>X := X b + VelocityX b, Y := Y b + VelocityY b\<rparr>"
  assumes "\<not> (Y bullet < 0 \<or> Y bullet > 600 \<or> X bullet < 0 \<or> X bullet > 800)"
      and "\<forall>boss. Boss room = Some boss \<longrightarrow> \<not> checkCollision bullet boss"
      and "hitEnemy bullet (Enemies room) = Some enemyID"
  shows "bulletStep (bid, b\<lparr>Type := t\<rparr>) room = bulletStep (bid, b) room"
proof -
  define b' where "b' = b\<lparr>Type := t\<rparr>"
  define bullet' where "bullet' = b'\<lparr>X := X b' + VelocityX b', Y := Y b' + VelocityY b'\<rparr>"
  have geom: "X bullet' = X bullet" "Y bullet' = Y bullet" "Width bullet' = Width bullet"
    "Height bullet' = Height bullet"
    by (simp_all add: bullet'_def b'_def bullet_def)
  have c: "checkCollision bullet' e = checkCollision bullet e" for e :: Entity
    by (rule checkCollision_geom) (simp_all add: geom)
  have h: "hitEnemy bullet' es = hitEnemy bullet es" for es
    by (rule hitEnemy_geom) (simp_all add: geom)
  have s: "creditShooter bullet' ps = creditShooter bullet ps" for ps
    by (rule creditShooter_geom) (simp_all add: geom)
  have "bulletStep (bid, b') room =
          room\<lparr>Bullets := AList.delete bid (Bullets room),
               Enemies := AList.delete enemyID (Enemies room),
               EnemiesDefeated := EnemiesDefeated room + 1,
               Players := creditShooter bullet' (Players room)\<rparr>"
    unfolding bullet'_def
    by (rule bulletStep_enemy) (use assms(2-4) in \<open>simp_all add: bullet'_def [symmetric] geom c h\<close>)
  moreover have "bulletStep (bid, b) room =
          room\<lparr>Bullets := AList.delete bid (Bullets room),
               Enemies := AList.delete enemyID (Enemies room),
               EnemiesDefeated := EnemiesDefeated room + 1,
               Players := creditShooter bullet (Players room)\<rparr>"
    unfolding bullet_def
    by (rule bulletStep_enemy) (use assms(2-4) in \<open>simp_all add: bullet_def [symmetric]\<close>)
  ultimately show ?thesis by (simp add: s b'_def)
qed

lemma hurtPlayer_fields [simp]:
  "Bullets (hurtPlayer d pid p room) = Bullets room"
  "Enemies (hurtPlayer d pid p room) = Enemies room"
  "Boss (hurtPlayer d pid p room) = Boss room"
  "EnemiesDefeated (hurtPlayer d pid p room) = EnemiesDefeated room"
  "BossSpawned (hurtPlayer d pid p room) = BossSpawned room"
  by (simp_all add: hurtPlayer_def Let_def)

lemma fold_bossTouch_fields [simp]:
  "Bullets (fold (bossTouch boss) ps room) = Bullets room"
  "Enemies (fold (bossTouch boss) ps room) = Enemies room"
  "Boss (fold (bossTouch boss) ps room) = Boss room"
  "EnemiesDefeated (fold (bossTouch boss) ps room) = EnemiesDefeated room"
  "BossSpawned (fold (bossTouch boss) ps room) = BossSpawned room"
  by (induction ps arbitrary: room; simp add: bossTouch_def split: prod.splits)+

lemma resetPlayers_keys [simp]: "map fst (resetPlayers rnd k ps) = map fst ps"
  by (induction ps arbitrary: k) auto

lemma resetPlayers_fresh:
  "(pid, p) \<in> set (resetPlayers rnd k ps) \<Longrightarrow>
   Player.Health p = 100 \<and> Score p = 0 \<and> 300 \<le> X p \<and> X p < 600 \<and> 300 \<le> Y p \<and> Y p < 600"
  by (induction ps arbitrary: k) (auto simp: Intn_def)

lemma over_roomStep:
  assumes "GameState room = ''gameover'' \<or> GameState room = ''clear''" and "\<not> isRestart ev"
  shows "GameState (roomStep room ev) = GameState room"
  using assms
  by (cases ev)
     (auto simp: handleMove_def handleShoot_def createBullet_def handleDisconnect_def
        updateGame_def enemyTick_def Let_def split: option.splits)

lemma playersOK_simps [simp]:
  "playersOK []" "playersOK ((pid, p) # ps) \<longleftrightarrow> playerOK p \<and> playersOK ps"
  by (simp_all add: playersOK_def)

lemma set_update_subset: "set (AList.update k v al) \<subseteq> insert (k, v) (set al)"
  by (induction al) auto

lemma set_delete_subset: "set (AList.delete k al) \<subseteq> set al"
  by (auto simp: AList.delete_eq)

lemma keys_update_existing:
  "k \<in> fst ` set al \<Longrightarrow> map fst (AList.update k v al) = map fst al"
  by (simp add: update_keys)

lemma playersOK_update:
  "playersOK ps \<Longrightarrow> playerOK p \<Longrightarrow> playersOK (AList.update k p ps)"
  using set_update_subset [of k p ps] by (auto simp: playersOK_def)

lemma playersOK_delete: "playersOK ps \<Longrightarrow> playersOK (AList.delete k ps)"
  using set_delete_subset [of k ps] by (auto simp: playersOK_def)

lemma playersOK_movePlayer:
  "playersOK ps \<Longrightarrow> playersOK (map (\<lambda>(pid, player). (pid, movePlayer player)) ps)"
  by (auto simp: playersOK_def playerOK_def movePlayer_def Let_def)

lemma keys_movePlayer [simp]:
  "map fst (map (\<lambda>(pid, player). (pid, movePlayer player)) ps) = map fst ps"
  by (induction ps) auto

lemma playersOK_creditShooter: "playersOK ps \<Longrightarrow> playersOK (creditShooter bullet ps)"
  by (induction ps) (auto simp: playerOK_def)

lemma keys_creditShooter [simp]: "map fst (creditShooter bullet ps) = map fst ps"
  by (induction ps) auto

lemma playersOK_bonus:
  "playersOK ps \<Longrightarrow> playersOK (map (\<lambda>(pid, player). (pid, player\<lparr>Score := Score player + 500\<rparr>)) ps)"
  by (auto simp: playersOK_def playerOK_def)

lemma keys_bonus [simp]:
  "map fst (map (\<lambda>(pid, player). (pid, player\<lparr>Score := Score player + 500\<rparr>)) ps) = map fst ps"
  by (induction ps) auto

lemma bulletStep_players:
  "playersOK (Players room) \<Longrightarrow> playersOK (Players (bulletStep x room))"
  "map fst (Players (bulletStep x room)) = map fst (Players room)"
  by (cases x; auto simp: bulletStep_def bulletVsEnemies_def damageBoss_def Let_def
        playersOK_creditShooter playersOK_bonus split: option.splits)+

lemma fold_bulletStep_players:
  "playersOK (Players room) \<Longrightarrow> playersOK (Players (fold bulletStep bs room))"
  "map fst (Players (fold bulletStep bs room)) = map fst (Players room)"
  by (induction bs arbitrary: room; simp add: bulletStep_players)+

lemma hurtPlayer_playersOK:
  "playersOK (Players room) \<Longrightarrow> playerOK player \<Longrightarrow> 0 \<le> d \<Longrightarrow>
   playersOK (Players (hurtPlayer d pid player room))"
  by (auto simp: hurtPlayer_def Let_def playerOK_def intro!: playersOK_update)

lemma hurtPlayer_keys:
  "pid \<in> fst ` set (Players room) \<Longrightarrow>
   map fst (Players (hurtPlayer d pid player room)) = map fst (Players room)"
  by (auto simp: hurtPlayer_def Let_def keys_update_existing)

lemma hitPlayer_member: "hitPlayer e ps = Some (pid, player) \<Longrightarrow> (pid, player) \<in> set ps"
  by (induction ps) (auto split: if_splits)

lemma enemyStep_players:
  "playersOK (Players room) \<Longrightarrow> playersOK (Players (enemyStep x room))"
  "map fst (Players (enemyStep x room)) = map fst (Players room)"
proof -
  obtain eid e where x: "x = (eid, e)" by (cases x)
  define enemy where "enemy = e\<lparr>X := X e + VelocityX e, Y := Y e + VelocityY e\<rparr>"
  define room1 where "room1 = room\<lparr>Enemies := AList.update eid enemy (Enemies room)\<rparr>"
  have p1: "Players room1 = Players room" by (simp add: room1_def)
  have step: "enemyStep x room =
      (if Y enemy > 600 then room1\<lparr>Enemies := AList.delete eid (Enemies room1)\<rparr>
       else (case hitPlayer enemy (Players room1) of
               None \<Rightarrow> room1
             | Some (pid, player) \<Rightarrow>
                 (hurtPlayer 10 pid player room1)
                   \<lparr>Enemies := AList.delete eid (Enemies (hurtPlayer 10 pid player room1))\<rparr>))"
    by (simp add: x enemyStep_def Let_def enemy_def room1_def split: option.splits)
  show "map fst (Players (enemyStep x room)) = map fst (Players room)"
  proof (cases "hitPlayer enemy (Players room1)")
    case None
    then show ?thesis by (simp add: step p1)
  next
    case (Some hit)
    obtain pid player where hit: "hit = (pid, player)" by (cases hit)
    have "(pid, player) \<in> set (Players room1)"
      using Some hit hitPlayer_member by simp
    then have "pid \<in> fst ` set (Players room1)" by force
    then show ?thesis using Some hit by (simp add: step hurtPlayer_keys p1)
  qed
  assume ok: "playersOK (Players room)"
  show "playersOK (Players (enemyStep x room))"
  proof (cases "hitPlayer enemy (Players room1)")
    case None
    then show ?thesis using ok by (simp add: step p1)
  next
    case (Some hit)
    obtain pid player where hit: "hit = (pid, player)" by (cases hit)
    have "(pid, player) \<in> set (Players room1)"
      using Some hit hitPlayer_member by simp
    then have "playerOK player" using ok by (auto simp: p1 playersOK_def)
    then have "playersOK (Players (hurtPlayer 10 pid player room1))"
      using ok by (intro hurtPlayer_playersOK) (simp_all add: p1)
    then show ?thesis using Some hit ok by (simp add: step p1)
  qed
qed

lemma fold_enemyStep_players:
  "playersOK (Players room) \<Longrightarrow> playersOK (Players (fold enemyStep es room))"
  "map fst (Players (fold enemyStep es room)) = map fst (Players room)"
  by (induction es arbitrary: room; simp add: enemyStep_players)+

lemma fold_bossTouch_playersOK:
  "playersOK ps \<Longrightarrow> playersOK (Players room) \<Longrightarrow>
   playersOK (Players (fold (bossTouch boss) ps room))"
proof (induction ps arbitrary: room)
  case Nil
  then show ?case by simp
next
  case (Cons x ps)
  obtain pid player where x: "x = (pid, player)" by (cases x)
  have "playersOK (Players (bossTouch boss x room))"
    using Cons.prems by (auto simp: x bossTouch_def playersOK_def [of "_ # _"] intro: hurtPlayer_playersOK)
  moreover have "playersOK ps" using Cons.prems(1) by (simp add: playersOK_def)
  ultimately show ?case using Cons.IH by simp
qed

lemma fold_bossTouch_keys:
  "fst ` set ps \<subseteq> fst ` set (Players room) \<Longrightarrow>
   map fst (Players (fold (bossTouch boss) ps room)) = map fst (Players room)"
proof (induction ps arbitrary: room)
  case Nil
  then show ?case by simp
next
  case (Cons x ps)
  obtain pid player where x: "x = (pid, player)" by (cases x)
  have k: "map fst (Players (bossTouch boss x room)) = map fst (Players room)"
    using Cons.prems by (auto simp: x bossTouch_def hurtPlayer_keys)
  then have "fst ` set (Players (bossTouch boss x room)) = fst ` set (Players room)"
    by (metis list.set_map)
  then show ?case using Cons.IH [of "bossTouch boss x room"] Cons.prems k by simp
qed

lemma bossPhase_players:
  "playersOK (Players room) \<Longrightarrow> playersOK (Players (bossPhase room bulletID r1 r2 r3))"
  "map fst (Players (bossPhase room bulletID r1 r2 r3)) = map fst (Players room)"
  by (auto simp: bossPhase_def Let_def fold_bossTouch_playersOK fold_bossTouch_keys
        split: option.splits)

lemma updateGame_players:
  "playersOK (Players room) \<Longrightarrow> playersOK (Players (updateGame room bulletID r1 r2 r3))"
  "map fst (Players (updateGame room bulletID r1 r2 r3)) = map fst (Players room)"
  by (simp_all add: updateGame_def Let_def bossPhase_players fold_enemyStep_players
        fold_bulletStep_players playersOK_movePlayer split_beta)

lemma resetPlayers_playersOK: "playersOK (resetPlayers rnd k ps)"
  by (induction ps arbitrary: k) (auto simp: playerOK_def)

lemma roomStep_playersOK:
  assumes "playersOK (Players room)"
  shows "playersOK (Players (roomStep room ev))"
proof (cases ev)
  case (Move clientID vx vy)
  show ?thesis
  proof (cases "map_of (Players room) clientID")
    case None
    then show ?thesis using assms by (simp add: Move handleMove_def)
  next
    case (Some player)
    then have "playerOK player"
      using assms map_of_SomeD [OF Some] by (auto simp: playersOK_def)
    then show ?thesis
      using assms Some
      by (auto simp: Move handleMove_def Let_def playerOK_def intro!: playersOK_update
            split: option.splits)
  qed
next
  case (Shoot clientID bulletID)
  then show ?thesis
    using assms by (auto simp: handleShoot_def createBullet_def Let_def split: option.splits)
next
  case (Restart clientID rnd)
  then show ?thesis
    using assms by (auto simp: handleRestart_def resetPlayers_playersOK)
next
  case (Disconnect clientID)
  then show ?thesis using assms by (simp add: handleDisconnect_def playersOK_delete)
next
  case (Tick bulletID r1 r2 r3)
  then show ?thesis using assms by (simp add: updateGame_players)
next
  case (EnemyTick uuid r1 r2 r3)
  then show ?thesis
    using assms by (auto simp: enemyTick_def createBoss_def createEnemy_def Let_def)
qed

lemma playerOK_newPlayer: "playerOK (newPlayer clientID r1 r2 r3)"
  by (simp add: playerOK_def newPlayer_def)

lemma set_map_entry:
  "(k', v') \<in> set (AList.map_entry k f al) \<Longrightarrow>
   (k', v') \<in> set al \<or> (\<exists>v. (k, v) \<in> set al \<and> k' = k \<and> v' = f v)"
  by (induction al) (auto split: if_splits)

lemma roomsOK_update:
  "\<forall>(rid, room) \<in> set gameRooms. playersOK (Players room) \<Longrightarrow> playersOK (Players room1) \<Longrightarrow>
   \<forall>(rid, room) \<in> set (AList.update k room1 gameRooms). playersOK (Players room)"
  using set_update_subset [of k room1 gameRooms] by auto

lemma roomsOK_delete:
  "\<forall>(rid, room) \<in> set gameRooms. playersOK (Players room) \<Longrightarrow>
   \<forall>(rid, room) \<in> set (AList.delete k gameRooms). playersOK (Players room)"
  using set_delete_subset [of k gameRooms] by auto

lemma roomsOK_selectRoom:
  "\<forall>(rid, room) \<in> set gameRooms. playersOK (Players room) \<Longrightarrow>
   \<forall>(rid, room) \<in> set (fst (selectRoom gameRooms roomID)). playersOK (Players room)"
proof (cases "findRoom gameRooms")
  case None
  assume ok: "\<forall>(rid, room) \<in> set gameRooms. playersOK (Players room)"
  have "playersOK (Players (newGameRoom roomID))" by (simp add: newGameRoom_def)
  with ok have "\<forall>(rid, room) \<in> set (AList.update roomID (newGameRoom roomID) gameRooms).
                  playersOK (Players room)"
    by (rule roomsOK_update)
  then show ?thesis by (simp add: selectRoom_def None)
next
  case (Some rid)
  assume "\<forall>(rid, room) \<in> set gameRooms. playersOK (Players room)"
  then show ?thesis by (simp add: selectRoom_def Some)
qed

lemma roomsOK_joinRoom:
  assumes "\<forall>(rid, room) \<in> set gameRooms. playersOK (Players room)" "playerOK player"
  shows "\<forall>(rid, room) \<in> set (joinRoom gameRooms k player). playersOK (Players room)"
proof -
  have "playersOK (Players room1)" if "(rid, room1) \<in> set (joinRoom gameRooms k player)"
    for rid room1
  proof -
    from that set_map_entry [of rid room1 k "addPlayer player" gameRooms]
    consider "(rid, room1) \<in> set gameRooms"
      | room where "(k, room) \<in> set gameRooms" "room1 = addPlayer player room"
      by (auto simp: joinRoom_def)
    then show ?thesis
    proof cases
      case 1
      then show ?thesis using assms(1) by auto
    next
      case 2
      then have "playersOK (Players room)" using assms(1) by auto
      then show ?thesis using 2 assms(2) by (simp add: addPlayer_def playersOK_update)
    qed
  qed
  then show ?thesis by auto
qed

lemma serverOK_step: "serverOK sv \<Longrightarrow> serverOK (step sv ev)"
proof -
  assume ok: "serverOK sv"
  obtain gameRooms pending where sv: "sv = (gameRooms, pending)" by (cases sv)
  have rooms: "\<forall>(rid, room) \<in> set gameRooms. playersOK (Players room)"
    and pend: "\<forall>(clientID, rid, player) \<in> set pending. playerOK player"
    using ok by (simp_all add: sv serverOK_def)
  show ?thesis
  proof (cases ev)
    case (Select clientID r1 r2 r3 roomID)
    obtain rooms1 rid where sel: "selectRoom gameRooms roomID = (rooms1, rid)"
      by (cases "selectRoom gameRooms roomID")
    have st: "step sv ev = (rooms1, AList.update clientID (rid, newPlayer clientID r1 r2 r3) pending)"
      by (simp add: sv Select sel)
    have "\<forall>(k, room) \<in> set rooms1. playersOK (Players room)"
      using roomsOK_selectRoom [OF rooms, of roomID] by (simp add: sel)
    moreover have "\<forall>(c, k, player) \<in> set (AList.update clientID (rid, newPlayer clientID r1 r2 r3) pending).
            playerOK player"
      using pend set_update_subset [of clientID "(rid, newPlayer clientID r1 r2 r3)" pending]
      by (auto simp: playerOK_newPlayer)
    ultimately show ?thesis unfolding st serverOK_def by simp
  next
    case (Join clientID)
    show ?thesis
    proof (cases "map_of pending clientID")
      case None
      then show ?thesis using ok by (simp add: sv Join)
    next
      case (Some chosen)
      obtain rid player where chosen: "chosen = (rid, player)" by (cases chosen)
      have st: "step sv ev = (joinRoom gameRooms rid player, AList.delete clientID pending)"
        by (simp add: sv Join Some chosen)
      have "(clientID, rid, player) \<in> set pending"
        using Some chosen by (simp add: map_of_SomeD)
      then have "playerOK player" using pend by auto
      then have "\<forall>(k, room) \<in> set (joinRoom gameRooms rid player). playersOK (Players room)"
        using rooms by (intro roomsOK_joinRoom)
      moreover have "\<forall>(c, rid, player) \<in> set (AList.delete clientID pending). playerOK player"
        using pend set_delete_subset [of clientID pending] by auto
      ultimately show ?thesis unfolding st serverOK_def by simp
    qed
  next
    case (InRoom rid rev)
    show ?thesis
    proof (cases "map_of gameRooms rid")
      case None
      then show ?thesis using ok by (simp add: sv InRoom)
    next
      case (Some room)
      then have "playersOK (Players room)" using rooms by (auto dest!: map_of_SomeD)
      then have r1: "playersOK (Players (roomStep room rev))" by (rule roomStep_playersOK)
      have u: "\<forall>(k, room) \<in> set (AList.update rid (roomStep room rev) gameRooms).
                 playersOK (Players room)"
        using rooms r1 by (rule roomsOK_update)
      have d: "\<forall>(k, room) \<in> set (AList.delete rid gameRooms). playersOK (Players room)"
        using rooms by (rule roomsOK_delete)
      show ?thesis
      proof (cases "isTick rev \<and> length (Players (roomStep room rev)) = 0")
        case True
        then have "step sv ev = (AList.delete rid gameRooms, pending)"
          by (simp add: sv InRoom Some)
        then show ?thesis using d pend by (simp add: serverOK_def)
      next
        case False
        then have "step sv ev = (AList.update rid (roomStep room rev) gameRooms, pending)"
          by (auto simp: sv InRoom Some Let_def)
        then show ?thesis using u pend by (simp add: serverOK_def)
      qed
    qed
  qed
qed

lemma serverOK_run: "serverOK (foldl step ([], []) evs)"
proof (induction evs rule: rev_induct)
  case Nil
  then show ?case by (simp add: serverOK_def)
next
  case (snoc ev evs)
  then show ?case by (simp add: serverOK_step)
qed

lemma playersOK_roomRun:
  "playersOK (Players room) \<Longrightarrow> playersOK (Players (roomRun room revs))"
  unfolding roomRun_def
  by (induction revs rule: rev_induct) (simp_all add: roomStep_playersOK)

lemma bulletStep_flag [simp]: "BossSpawned (bulletStep x room) = BossSpawned room"
  by (cases x) (auto simp: bulletStep_def bulletVsEnemies_def damageBoss_def Let_def
      split: option.splits)

lemma bulletStep_noBoss: "Boss room = None \<Longrightarrow> Boss (bulletStep x room) = None"
  by (cases x) (auto simp: bulletStep_def bulletVsEnemies_def Let_def split: option.splits)

lemma bulletStep_enemyKeys:
  "fst ` set (Enemies (bulletStep x room)) \<subseteq> fst ` set (Enemies room)"
  using dom_delete_subset [of _ "Enemies room"]
  by (cases x) (auto simp: bulletStep_def bulletVsEnemies_def damageBoss_def Let_def
      split: option.splits)

lemma fold_bulletStep_flag [simp]: "BossSpawned (fold bulletStep bs room) = BossSpawned room"
  by (induction bs arbitrary: room) simp_all

lemma fold_bulletStep_noBoss: "Boss room = None \<Longrightarrow> Boss (fold bulletStep bs room) = None"
  by (induction bs arbitrary: room) (simp_all add: bulletStep_noBoss)

lemma fold_bulletStep_enemyKeys:
  "fst ` set (Enemies (fold bulletStep bs room)) \<subseteq> fst ` set (Enemies room)"
proof (induction bs arbitrary: room)
  case Nil
  then show ?case by simp
next
  case (Cons x bs)
  then show ?case using bulletStep_enemyKeys [of x room] by (simp, blast)
qed

lemma enemyStep_fields [simp]:
  "BossSpawned (enemyStep x room) = BossSpawned room"
  "Boss (enemyStep x room) = Boss room"
  by (cases x; simp add: enemyStep_def Let_def split: option.splits)+

lemma enemyStep_enemyKeys:
  "fst ` set (Enemies (enemyStep x room)) \<subseteq> insert (fst x) (fst ` set (Enemies room))"
proof -
  obtain eid e where x: "x = (eid, e)" by (cases x)
  have d: "fst ` set (AList.delete eid al) \<subseteq> insert eid (fst ` set al)"
    for al :: "(string \<times> Entity) list"
    using dom_delete_subset [of eid al] by blast
  show ?thesis
    using d by (auto simp: x enemyStep_def Let_def dom_update delete_update_same
        split: option.splits)
qed

lemma fold_enemyStep_fields [simp]:
  "BossSpawned (fold enemyStep es room) = BossSpawned room"
  "Boss (fold enemyStep es room) = Boss room"
  by (induction es arbitrary: room; simp)+

lemma fold_enemyStep_enemyKeys:
  "fst ` set es \<subseteq> K \<Longrightarrow> fst ` set (Enemies room) \<subseteq> K \<Longrightarrow>
   fst ` set (Enemies (fold enemyStep es room)) \<subseteq> K"
proof (induction es arbitrary: room)
  case Nil
  then show ?case by simp
next
  case (Cons x es)
  have "fst x \<in> K" "fst ` set (Enemies room) \<subseteq> K"
    using Cons.prems by simp_all
  then have "insert (fst x) (fst ` set (Enemies room)) \<subseteq> K" by simp
  then have "fst ` set (Enemies (enemyStep x room)) \<subseteq> K"
    using enemyStep_enemyKeys [of x room] by (rule order_trans [rotated])
  then show ?case using Cons.IH [of "enemyStep x room"] Cons.prems(1) by simp
qed

lemma bossPhase_fields [simp]:
  "BossSpawned (bossPhase room bulletID r1 r2 r3) = BossSpawned room"
  "Enemies (bossPhase room bulletID r1 r2 r3) = Enemies room"
  by (simp_all add: bossPhase_def Let_def split: option.splits)

lemma bossPhase_noBoss: "Boss room = None \<Longrightarrow> Boss (bossPhase room bulletID r1 r2 r3) = None"
  by (simp add: bossPhase_def)

lemma updateGame_flag [simp]:
  "BossSpawned (updateGame room bulletID r1 r2 r3) = BossSpawned room"
  by (simp add: updateGame_def Let_def)

lemma updateGame_noBoss:
  "Boss room = None \<Longrightarrow> Boss (updateGame room bulletID r1 r2 r3) = None"
  by (simp add: updateGame_def Let_def bossPhase_noBoss fold_bulletStep_noBoss)

lemma updateGame_enemyKeys:
  "fst ` set (Enemies (updateGame room bulletID r1 r2 r3)) \<subseteq> fst ` set (Enemies room)"
proof (cases "GameState room = ''playing''")
  case False
  then show ?thesis by (simp add: updateGame_def)
next
  case True
  define room1 where
    "room1 = room\<lparr>Players := map (\<lambda>(pid, player). (pid, movePlayer player)) (Players room)\<rparr>"
  define room2 where "room2 = fold bulletStep (Bullets room1) room1"
  have k2: "fst ` set (Enemies room2) \<subseteq> fst ` set (Enemies room)"
    using fold_bulletStep_enemyKeys [of "Bullets room1" room1] by (simp add: room2_def room1_def)
  have "fst ` set (Enemies (fold enemyStep (Enemies room2) room2)) \<subseteq> fst ` set (Enemies room2)"
    by (rule fold_enemyStep_enemyKeys) simp_all
  then show ?thesis
    using k2 True by (simp add: updateGame_def Let_def room2_def room1_def)
qed

lemma roomStep_flag_stays:
  "BossSpawned room \<Longrightarrow> \<not> isRestart ev \<Longrightarrow> BossSpawned (roomStep room ev)"
  by (cases ev)
     (auto simp: handleMove_def handleShoot_def createBullet_def handleDisconnect_def
        enemyTick_def createBoss_def createEnemy_def Let_def split: option.splits)

lemma roomStep_flag_set:
  assumes "\<not> BossSpawned room" "BossSpawned (roomStep room ev)"
  shows "(\<exists>uuid r1 r2 r3. ev = EnemyTick uuid r1 r2 r3) \<and> GameState room = ''playing'' \<and>
         EnemiesDefeated room \<ge> 20 \<and> Boss (roomStep room ev) \<noteq> None"
  using assms
  by (cases ev)
     (auto simp: handleMove_def handleShoot_def createBullet_def handleDisconnect_def
        handleRestart_def enemyTick_def createBoss_def createEnemy_def Let_def
        split: option.splits if_splits)

lemma roomStep_boss_appears:
  assumes "Boss room = None" "Boss (roomStep room ev) \<noteq> None"
  shows "(\<exists>uuid r1 r2 r3. ev = EnemyTick uuid r1 r2 r3) \<and> GameState room = ''playing'' \<and>
         EnemiesDefeated room \<ge> 20 \<and> \<not> BossSpawned room \<and> BossSpawned (roomStep room ev)"
  using assms
  by (cases ev)
     (auto simp: handleMove_def handleShoot_def createBullet_def handleDisconnect_def
        handleRestart_def enemyTick_def createBoss_def createEnemy_def Let_def updateGame_noBoss
        split: option.splits if_splits)

lemma roomStep_spawn_tick:
  assumes "GameState room = ''playing''" "EnemiesDefeated room \<ge> 20"
  shows "BossSpawned (roomStep room (EnemyTick uuid r1 r2 r3))"
  using assms by (auto simp: enemyTick_def createBoss_def createEnemy_def Let_def)

lemma roomStep_bossInv:
  assumes "Boss room \<noteq> None \<longrightarrow> BossSpawned room"
  shows "Boss (roomStep room ev) \<noteq> None \<longrightarrow> BossSpawned (roomStep room ev)"
proof (cases "Boss room")
  case None
  then show ?thesis using roomStep_boss_appears [of room ev] by blast
next
  case (Some boss)
  then have "BossSpawned room" using assms by simp
  then show ?thesis
    by (cases ev)
       (auto simp: handleMove_def handleShoot_def createBullet_def handleDisconnect_def
          handleRestart_def enemyTick_def createBoss_def createEnemy_def Let_def
          split: option.splits if_splits)
qed

lemma roomStep_enemyKeys:
  assumes "BossSpawned room"
  shows "fst ` set (Enemies (roomStep room ev)) \<subseteq> fst ` set (Enemies room)"
  using assms updateGame_enemyKeys [of room]
  by (cases ev)
     (auto simp: handleMove_def handleShoot_def createBullet_def handleDisconnect_def
        handleRestart_def enemyTick_def createBoss_def createEnemy_def Let_def
        split: option.splits if_splits)

lemma roomRun_Cons [simp]: "roomRun room (ev # evs) = roomRun (roomStep room ev) evs"
  by (simp add: roomRun_def)

lemma roomRun_Nil [simp]: "roomRun room [] = room"
  by (simp add: roomRun_def)

lemma roomRun_append: "roomRun room (xs @ ys) = roomRun (roomRun room xs) ys"
  by (simp add: roomRun_def)

lemma roomRun_flag_stays:
  "BossSpawned room \<Longrightarrow> \<forall>ev \<in> set evs. \<not> isRestart ev \<Longrightarrow> BossSpawned (roomRun room evs)"
  by (induction evs arbitrary: room) (simp_all add: roomStep_flag_stays)

lemma roomRun_enemyKeys:
  "BossSpawned room \<Longrightarrow> \<forall>ev \<in> set evs. \<not> isRestart ev \<Longrightarrow>
   fst ` set (Enemies (roomRun room evs)) \<subseteq> fst ` set (Enemies room)"
proof (induction evs arbitrary: room)
  case Nil
  then show ?case by simp
next
  case (Cons ev evs)
  have "BossSpawned (roomStep room ev)" using Cons.prems by (simp add: roomStep_flag_stays)
  then have "fst ` set (Enemies (roomRun (roomStep room ev) evs))
               \<subseteq> fst ` set (Enemies (roomStep room ev))"
    using Cons.IH Cons.prems(2) by simp
  then show ?case using roomStep_enemyKeys [OF Cons.prems(1), of ev] by auto
qed

lemma bossSpawns_flag:
  "Boss room \<noteq> None \<longrightarrow> BossSpawned room \<Longrightarrow> \<forall>ev \<in> set evs. \<not> isRestart ev \<Longrightarrow>
   bossSpawns room evs = (if \<not> BossSpawned room \<and> BossSpawned (roomRun room evs) then 1 else 0)"
proof (induction evs arbitrary: room)
  case Nil
  then show ?case by simp
next
  case (Cons ev evs)
  let ?room1 = "roomStep room ev"
  have inv1: "Boss ?room1 \<noteq> None \<longrightarrow> BossSpawned ?room1"
    using Cons.prems(1) by (rule roomStep_bossInv)
  have rest: "\<forall>ev \<in> set evs. \<not> isRestart ev" and now: "\<not> isRestart ev"
    using Cons.prems(2) by simp_all
  have ih: "bossSpawns ?room1 evs =
              (if \<not> BossSpawned ?room1 \<and> BossSpawned (roomRun ?room1 evs) then 1 else 0)"
    using Cons.IH [OF inv1 rest] .
  show ?case
  proof (cases "Boss room = None \<and> Boss ?room1 \<noteq> None")
    case True
    then have "\<not> BossSpawned room" "BossSpawned ?room1"
      using roomStep_boss_appears [of room ev] by simp_all
    moreover from this have "BossSpawned (roomRun ?room1 evs)"
      using rest by (simp add: roomRun_flag_stays)
    ultimately show ?thesis using True ih by simp
  next
    case False
    have same: "BossSpawned ?room1 = BossSpawned room"
    proof (cases "BossSpawned room")
      case True
      then show ?thesis using now by (simp add: roomStep_flag_stays)
    next
      case f: False
      then have "Boss room = None" using Cons.prems(1) by auto
      then have "\<not> BossSpawned ?room1"
        using False f roomStep_flag_set [of room ev] by blast
      then show ?thesis using f by simp
    qed
    show ?thesis using False ih same by auto
  qed
qed

lemma roomRun_flag_iff:
  assumes "\<not> BossSpawned room" "\<forall>ev \<in> set evs. \<not> isRestart ev"
  shows "BossSpawned (roomRun room evs) \<longleftrightarrow>
         (\<exists>pre uuid r1 r2 r3 post. evs = pre @ EnemyTick uuid r1 r2 r3 # post \<and>
            GameState (roomRun room pre) = ''playing'' \<and> EnemiesDefeated (roomRun room pre) \<ge> 20)"
  using assms(2)
proof (induction evs rule: rev_induct)
  case Nil
  then show ?case using assms(1) by simp
next
  case (snoc ev evs)
  have rest: "\<forall>ev \<in> set evs. \<not> isRestart ev" and now: "\<not> isRestart ev"
    using snoc.prems by simp_all
  let ?P = "\<lambda>evs. \<exists>pre uuid r1 r2 r3 post. evs = pre @ EnemyTick uuid r1 r2 r3 # post \<and>
            GameState (roomRun room pre) = ''playing'' \<and> EnemiesDefeated (roomRun room pre) \<ge> 20"
  have ih: "BossSpawned (roomRun room evs) \<longleftrightarrow> ?P evs" using snoc.IH rest by simp
  have run: "roomRun room (evs @ [ev]) = roomStep (roomRun room evs) ev"
    by (simp add: roomRun_def)
  show ?case
  proof
    assume spawned: "BossSpawned (roomRun room (evs @ [ev]))"
    show "?P (evs @ [ev])"
    proof (cases "BossSpawned (roomRun room evs)")
      case True
      then obtain pre uuid r1 r2 r3 post where
        "evs = pre @ EnemyTick uuid r1 r2 r3 # post" "GameState (roomRun room pre) = ''playing''"
        "EnemiesDefeated (roomRun room pre) \<ge> 20"
        using ih by blast
      then have "evs @ [ev] = pre @ EnemyTick uuid r1 r2 r3 # (post @ [ev]) \<and>
            GameState (roomRun room pre) = ''playing'' \<and> EnemiesDefeated (roomRun room pre) \<ge> 20"
        by simp
      then show ?thesis by blast
    next
      case False
      then obtain uuid r1 r2 r3 where "ev = EnemyTick uuid r1 r2 r3"
        "GameState (roomRun room evs) = ''playing''" "EnemiesDefeated (roomRun room evs) \<ge> 20"
        using roomStep_flag_set [of "roomRun room evs" ev] spawned run by auto
      then have "evs @ [ev] = evs @ EnemyTick uuid r1 r2 r3 # [] \<and>
            GameState (roomRun room evs) = ''playing'' \<and> EnemiesDefeated (roomRun room evs) \<ge> 20"
        by simp
      then show ?thesis by blast
    qed
  next
    assume "?P (evs @ [ev])"
    then obtain pre uuid r1 r2 r3 post where split:
        "evs @ [ev] = pre @ EnemyTick uuid r1 r2 r3 # post" "GameState (roomRun room pre) = ''playing''"
        "EnemiesDefeated (roomRun room pre) \<ge> 20"
      by blast
    have "BossSpawned (roomRun room (pre @ [EnemyTick uuid r1 r2 r3]))"
      using roomStep_spawn_tick [OF split(2,3), of uuid r1 r2 r3] by (simp add: roomRun_append)
    moreover have "\<forall>ev \<in> set post. \<not> isRestart ev"
      using snoc.prems split(1) by (metis Un_iff list.set_intros(2) set_append)
    ultimately have "BossSpawned (roomRun (roomRun room (pre @ [EnemyTick uuid r1 r2 r3])) post)"
      by (rule roomRun_flag_stays)
    then show "BossSpawned (roomRun room (evs @ [ev]))"
      by (simp add: split(1) roomRun_append)
  qed
qed

lemma bulletStep_bulletKeys:
  "fst ` set (Bullets (bulletStep x room)) \<subseteq> insert (fst x) (fst ` set (Bullets room))"
proof -
  obtain bid b where x: "x = (bid, b)" by (cases x)
  have d: "fst ` set (AList.delete bid al) \<subseteq> insert bid (fst ` set al)"
    for al :: "(string \<times> Entity) list"
    using dom_delete_subset [of bid al] by blast
  show ?thesis
    using d [of "Bullets room"]
    by (auto simp: x bulletStep_def bulletVsEnemies_def damageBoss_def Let_def dom_update
        delete_update_same split: option.splits)
qed

lemma fold_bulletStep_bulletKeys:
  "fst ` set bs \<subseteq> K \<Longrightarrow> fst ` set (Bullets room) \<subseteq> K \<Longrightarrow>
   fst ` set (Bullets (fold bulletStep bs room)) \<subseteq> K"
proof (induction bs arbitrary: room)
  case Nil
  then show ?case by simp
next
  case (Cons x bs)
  have "fst x \<in> K" "fst ` set (Bullets room) \<subseteq> K"
    using Cons.prems by simp_all
  then have "insert (fst x) (fst ` set (Bullets room)) \<subseteq> K" by simp
  then have "fst ` set (Bullets (bulletStep x room)) \<subseteq> K"
    using bulletStep_bulletKeys [of x room] by (rule order_trans [rotated])
  then show ?case using Cons.IH [of "bulletStep x room"] Cons.prems(1) by simp
qed

lemma bulletStep_defeated: "EnemiesDefeated room \<le> EnemiesDefeated (bulletStep x room)"
  by (cases x) (auto simp: bulletStep_def bulletVsEnemies_def damageBoss_def Let_def
      split: option.splits)

lemma fold_bulletStep_defeated:
  "EnemiesDefeated room \<le> EnemiesDefeated (fold bulletStep bs room)"
proof (induction bs arbitrary: room)
  case Nil
  then show ?case by simp
next
  case (Cons x bs)
  show ?case
    using bulletStep_defeated [of room x] Cons.IH [of "bulletStep x room"] by simp
qed

lemma enemyStep_more_fields [simp]:
  "Bullets (enemyStep x room) = Bullets room"
  "EnemiesDefeated (enemyStep x room) = EnemiesDefeated room"
  by (cases x; simp add: enemyStep_def Let_def split: option.splits)+

lemma fold_enemyStep_more_fields [simp]:
  "Bullets (fold enemyStep es room) = Bullets room"
  "EnemiesDefeated (fold enemyStep es room) = EnemiesDefeated room"
  by (induction es arbitrary: room; simp)+

lemma bossPhase_defeated [simp]:
  "EnemiesDefeated (bossPhase room bulletID r1 r2 r3) = EnemiesDefeated room"
  by (simp add: bossPhase_def Let_def split: option.splits)

lemma bossPhase_bulletKeys:
  "fst ` set (Bullets (bossPhase room bulletID r1 r2 r3))
     \<subseteq> insert bulletID (fst ` set (Bullets room))"
  by (auto simp: bossPhase_def Let_def dom_update split: option.splits)

lemma bossPhase_stores:
  "Boss gameRoom = Some boss \<Longrightarrow> Intn 60 r1 < 5 \<Longrightarrow>
   \<exists>e. map_of (Bullets (bossPhase gameRoom newID r1 r2 r3)) newID = Some e \<and>
       Type e = ''bossBullet''"
  by (simp add: bossPhase_def Let_def update_conv')

lemma createBullet_stores:
  "GameState gameRoom = ''playing'' \<Longrightarrow>
   \<exists>e. map_of (Bullets (createBullet gameRoom player newID)) newID = Some e \<and> Type e = ''bullet''"
  by (simp add: createBullet_def Let_def update_conv')

section \<open>Theorems\<close>

text \<open>
  C1. The claim asks that a hostile projectile which overlaps a player is removed and
  costs that player 15 health. \<^verbatim>\<open>updateGame\<close> does not do that: its projectile pass
  never reads \<^verbatim>\<open>Type\<close> and never tests a projectile against a player. In the room
  \<open>exBossRoom\<close> a \<^verbatim>\<open>bossBullet\<close> moves onto the only player; after the tick the
  player is unchanged with health 100, the projectile is still in the map, and the
  state is still \<^verbatim>\<open>playing\<close>.
\<close>

theorem C1_bossBullet_passes_through_player:
  "checkCollision (exBossBullet\<lparr>X := X exBossBullet + VelocityX exBossBullet,
                                Y := Y exBossBullet + VelocityY exBossBullet\<rparr>) exPlayer
   \<and> Players (updateGame exBossRoom ''n'' 59 0 0) = [(''c1'', exPlayer)]
   \<and> Player.Health exPlayer = 100
   \<and> Bullets (updateGame exBossRoom ''n'' 59 0 0) = [(''bb'', exBossBullet\<lparr>Y := 292\<rparr>)]
   \<and> GameState (updateGame exBossRoom ''n'' 59 0 0) = ''playing''"
  by (simp add: updateGame_def ex_defs movePlayer_def bulletStep_def bulletVsEnemies_def
      checkCollision_def bossPhase_def bossTouch_def Let_def)






text \<open>
  C4. In a room whose state is \<^verbatim>\<open>gameover\<close> or \<^verbatim>\<open>clear\<close>, no event other than a
  restart changes the state: the tick, the spawn tick and a fire request return the
  room as it is, a move only sets velocities, a disconnect only removes a player.
  A restart sets the state to \<^verbatim>\<open>playing\<close>, the counter to 0, the flag to false,
  removes the Boss, empties both entity maps, and gives every player health 100,
  score 0 and a position drawn from \<open>[300, 600)\<close> in both coordinates.
\<close>

theorem C4_over_until_restart:
  assumes "GameState room = ''gameover'' \<or> GameState room = ''clear''"
  shows "(\<forall>ev. \<not> isRestart ev \<longrightarrow> GameState (roomStep room ev) = GameState room)
       \<and> updateGame room bulletID r1 r2 r3 = room
       \<and> enemyTick room uuid r1 r2 r3 = room
       \<and> createBullet room player bulletID = room
       \<and> handleRestart room rnd =
            room\<lparr>GameState := ''playing'', EnemiesDefeated := 0, BossSpawned := False,
                 Boss := None, Enemies := [], Bullets := [],
                 Players := resetPlayers rnd 0 (Players room)\<rparr>
       \<and> (map_of (Players room) clientID \<noteq> None \<longrightarrow>
            roomStep room (Restart clientID rnd) = handleRestart room rnd)
       \<and> map fst (Players (handleRestart room rnd)) = map fst (Players room)
       \<and> (\<forall>(pid, p) \<in> set (Players (handleRestart room rnd)).
            Player.Health p = 100 \<and> Score p = 0 \<and>
            300 \<le> X p \<and> X p < 600 \<and> 300 \<le> Y p \<and> Y p < 600)"
proof -
  have restart: "handleRestart room rnd =
            room\<lparr>GameState := ''playing'', EnemiesDefeated := 0, BossSpawned := False,
                 Boss := None, Enemies := [], Bullets := [],
                 Players := resetPlayers rnd 0 (Players room)\<rparr>"
    using assms by (auto simp: handleRestart_def)
  have "\<forall>(pid, p) \<in> set (Players (handleRestart room rnd)).
            Player.Health p = 100 \<and> Score p = 0 \<and>
            300 \<le> X p \<and> X p < 600 \<and> 300 \<le> Y p \<and> Y p < 600"
    unfolding restart using resetPlayers_fresh [of _ _ rnd 0 "Players room"] by auto
  moreover have "updateGame room bulletID r1 r2 r3 = room" "enemyTick room uuid r1 r2 r3 = room"
    "createBullet room player bulletID = room"
    using assms by (auto simp: updateGame_def enemyTick_def createBullet_def)
  ultimately show ?thesis
    using assms over_roomStep [of room] by (simp add: restart)
qed

theorem C4_witness:
  "(GameState exOverRoom = ''gameover'' \<or> GameState exOverRoom = ''clear'')
   \<and> GameState (roomStep exOverRoom (Tick ''n'' 0 0 0)) = ''gameover''
   \<and> GameState (roomStep exOverRoom (Shoot ''c1'' ''n'')) = ''gameover''
   \<and> map_of (Players exOverRoom) ''c1'' \<noteq> None
   \<and> roomStep exOverRoom (Restart ''c1'' (\<lambda>k. 7 + k)) =
       \<lparr>GameRoom.ID = ''r1'',
        Players = [(''c1'', exPlayer\<lparr>X := 307, Y := 308\<rparr>)],
        Bullets = [], Enemies = [], Boss = None,
        EnemiesDefeated = 0, BossSpawned = False, GameState = ''playing''\<rparr>"
proof -
  have over: "GameState exOverRoom = ''gameover'' \<or> GameState exOverRoom = ''clear''"
    by (simp add: exOverRoom_def)
  have member: "map_of (Players exOverRoom) ''c1'' \<noteq> None"
    by (simp add: exOverRoom_def)
  note claim = C4_over_until_restart [OF over, where rnd = "\<lambda>k. 7 + k" and clientID = "''c1''"]
  have stay: "GameState (roomStep exOverRoom ev) = GameState exOverRoom" if "\<not> isRestart ev" for ev
    using claim that by blast
  have "roomStep exOverRoom (Restart ''c1'' (\<lambda>k. 7 + k)) =
          exOverRoom\<lparr>GameState := ''playing'', EnemiesDefeated := 0, BossSpawned := False,
                 Boss := None, Enemies := [], Bullets := [],
                 Players := resetPlayers (\<lambda>k. 7 + k) 0 (Players exOverRoom)\<rparr>"
    using claim member by metis
  then have "roomStep exOverRoom (Restart ''c1'' (\<lambda>k. 7 + k)) =
       \<lparr>GameRoom.ID = ''r1'',
        Players = [(''c1'', exPlayer\<lparr>X := 307, Y := 308\<rparr>)],
        Bullets = [], Enemies = [], Boss = None,
        EnemiesDefeated = 0, BossSpawned = False, GameState = ''playing''\<rparr>"
    by (simp add: ex_defs)
  then show ?thesis
    using over member stay [of "Tick ''n'' 0 0 0"] stay [of "Shoot ''c1'' ''n''"]
    by (simp add: exOverRoom_def)
qed

text \<open>
  C5. After any sequence of connections, messages, disconnections, ticks and spawn
  ticks, starting from the empty registry, every player of every room has health in
  \<open>[0, 100]\<close> and a score of at least 0; a new player starts with health 100 and
  score 0. The same bounds are kept by any sequence of events of a single room
  that starts from a room whose players satisfy them.
\<close>

theorem C5_player_health_score_bounds:
  "(\<forall>(rid, room) \<in> set (run evs). \<forall>(pid, p) \<in> set (Players room).
      0 \<le> Player.Health p \<and> Player.Health p \<le> 100 \<and> 0 \<le> Score p)
   \<and> Player.Health (newPlayer clientID r1 r2 r3) = 100
   \<and> Score (newPlayer clientID r1 r2 r3) = 0
   \<and> ((\<forall>(pid, p) \<in> set (Players room0).
          0 \<le> Player.Health p \<and> Player.Health p \<le> 100 \<and> 0 \<le> Score p) \<longrightarrow>
       (\<forall>(pid, p) \<in> set (Players (roomRun room0 revs)).
          0 \<le> Player.Health p \<and> Player.Health p \<le> 100 \<and> 0 \<le> Score p))"
proof -
  have "\<forall>(rid, room) \<in> set (run evs). \<forall>(pid, p) \<in> set (Players room).
      0 \<le> Player.Health p \<and> Player.Health p \<le> 100 \<and> 0 \<le> Score p"
    using serverOK_run [of evs]
    by (cases "foldl step ([], []) evs")
       (fastforce simp: run_def serverOK_def playersOK_def playerOK_def)
  moreover have "(\<forall>(pid, p) \<in> set (Players room0).
          0 \<le> Player.Health p \<and> Player.Health p \<le> 100 \<and> 0 \<le> Score p) \<longrightarrow>
       (\<forall>(pid, p) \<in> set (Players (roomRun room0 revs)).
          0 \<le> Player.Health p \<and> Player.Health p \<le> 100 \<and> 0 \<le> Score p)"
    using playersOK_roomRun [of room0 revs] by (simp add: playersOK_def playerOK_def)
  ultimately show ?thesis by (simp add: newPlayer_def)
qed

theorem C5_witness:
  "Players (roomRun exHitRoom [Tick ''n'' 0 0 0]) = [(''c1'', exPlayer\<lparr>Player.Health := 90\<rparr>)]
   \<and> GameState (roomRun exHitRoom [Tick ''n'' 0 0 0]) = ''playing''
   \<and> (0 :: int) \<le> 90 \<and> (90 :: int) \<le> 100 \<and> 0 \<le> Score (exPlayer\<lparr>Player.Health := 90\<rparr>)
   \<and> map (\<lambda>(rid, room). (rid, map (\<lambda>(pid, p). (pid, Player.Health p, Score p)) (Players room)))
        (run exAdmissions) =
      [(''r1'', [(''c1'', 100, 0), (''c2'', 100, 0), (''c3'', 100, 0), (''c4'', 100, 0)]),
       (''r5'', [(''c5'', 100, 0)])]"
proof -
  have start: "\<forall>(pid, p) \<in> set (Players exHitRoom).
          0 \<le> Player.Health p \<and> Player.Health p \<le> 100 \<and> 0 \<le> Score p"
    by (simp add: exHitRoom_def ex_defs)
  have tick: "Players (roomRun exHitRoom [Tick ''n'' 0 0 0]) =
                [(''c1'', exPlayer\<lparr>Player.Health := 90\<rparr>)]"
       "GameState (roomRun exHitRoom [Tick ''n'' 0 0 0]) = ''playing''"
    by (simp_all add: roomRun_def updateGame_def exHitRoom_def ex_defs movePlayer_def
        enemyStep_def hurtPlayer_def allPlayersDead_def checkCollision_def bossPhase_def Let_def)
  have adm: "map (\<lambda>(rid, room). (rid, map (\<lambda>(pid, p). (pid, Player.Health p, Score p)) (Players room)))
        (run exAdmissions) =
      [(''r1'', [(''c1'', 100, 0), (''c2'', 100, 0), (''c3'', 100, 0), (''c4'', 100, 0)]),
       (''r5'', [(''c5'', 100, 0)])]"
    by (simp add: run_def exAdmissions_def selectRoom_def joinRoom_def addPlayer_def
        newGameRoom_def newPlayer_def Let_def)
  from C5_player_health_score_bounds [where evs = exAdmissions and ?room0.0 = exHitRoom
      and revs = "[Tick ''n'' 0 0 0]"] start
  have "\<forall>(pid, p) \<in> set (Players (roomRun exHitRoom [Tick ''n'' 0 0 0])).
          0 \<le> Player.Health p \<and> Player.Health p \<le> 100 \<and> 0 \<le> Score p"
    by blast
  then show ?thesis using tick adm by simp
qed

text \<open>
  C6. The claim asks that a room whose Boss is brought to 0 health is \<^verbatim>\<open>clear\<close>.
  \<^verbatim>\<open>updateGame\<close> does set that state, remove the Boss and give every player 500
  points, but it looks at the state only on entry and runs the rest of the tick. In
  \<open>exLastStandRoom\<close> a bullet hits a Boss of health 1 and an enemy is about to hit
  the only player, who has health 10. After the projectile pass the state is
  \<^verbatim>\<open>clear\<close>; the enemy pass of the same tick then brings the player to 0 and sets
  \<^verbatim>\<open>gameover\<close>. The tick ends without Boss, with the 500 points, in \<^verbatim>\<open>gameover\<close>.
\<close>

theorem C6_boss_kill_tick_ends_in_gameover:
  "GameState exLastStandRoom = ''playing''
   \<and> Boss exLastStandRoom = Some (exBoss\<lparr>Entity.Health := 1\<rparr>)
   \<and> checkCollision (exShot\<lparr>X := X exShot + VelocityX exShot, Y := Y exShot + VelocityY exShot\<rparr>)
         (exBoss\<lparr>Entity.Health := 1\<rparr>)
   \<and> fold bulletStep (Bullets exLastStandRoom) exLastStandRoom =
       exLastStandRoom\<lparr>Bullets := [], GameState := ''clear'', Boss := None,
           Players := [(''c1'', exPlayer\<lparr>Player.Health := 10, Score := 500\<rparr>)]\<rparr>
   \<and> updateGame exLastStandRoom ''n'' 59 0 0 =
       \<lparr>GameRoom.ID = ''r1'',
        Players = [(''c1'', exPlayer\<lparr>Player.Health := 0, Score := 500\<rparr>)],
        Bullets = [], Enemies = [], Boss = None,
        EnemiesDefeated = 20, BossSpawned = True, GameState = ''gameover''\<rparr>"
  by (simp add: updateGame_def ex_defs movePlayer_def bulletStep_def damageBoss_def
      bulletVsEnemies_def enemyStep_def hurtPlayer_def allPlayersDead_def checkCollision_def
      bossPhase_def Let_def)

text \<open>
  C7. A play-through starts without a Boss and with the flag \<^verbatim>\<open>BossSpawned\<close> off,
  as a new room and a restarted room do. In a run without restart from such a room
  a Boss appears at most once, and it appears once exactly when some spawn tick of
  the run finds the room \<^verbatim>\<open>playing\<close> with at least 20 defeated enemies. A step
  that makes a Boss appear is such a spawn tick, and it sets the flag. Once the flag
  is set, the spawn tick returns the room as it is, and until a restart the flag
  stays set and no enemy id is added to the room. A restart clears the flag.
\<close>

theorem C7_boss_spawns_once:
  assumes "\<forall>ev \<in> set evs. \<not> isRestart ev" and "Boss room = None" and "\<not> BossSpawned room"
  shows "bossSpawns room evs \<le> 1
       \<and> (bossSpawns room evs = 1 \<longleftrightarrow>
            (\<exists>pre uuid r1 r2 r3 post. evs = pre @ EnemyTick uuid r1 r2 r3 # post \<and>
               GameState (roomRun room pre) = ''playing'' \<and>
               EnemiesDefeated (roomRun room pre) \<ge> 20))
       \<and> (\<forall>room' ev. Boss room' = None \<and> Boss (roomStep room' ev) \<noteq> None \<longrightarrow>
            (\<exists>uuid r1 r2 r3. ev = EnemyTick uuid r1 r2 r3) \<and> GameState room' = ''playing'' \<and>
            EnemiesDefeated room' \<ge> 20 \<and> \<not> BossSpawned room' \<and>
            BossSpawned (roomStep room' ev))
       \<and> (\<forall>room' uuid r1 r2 r3. BossSpawned room' \<longrightarrow> enemyTick room' uuid r1 r2 r3 = room')
       \<and> (\<forall>room' evs'. BossSpawned room' \<and> (\<forall>ev \<in> set evs'. \<not> isRestart ev) \<longrightarrow>
            BossSpawned (roomRun room' evs') \<and>
            fst ` set (Enemies (roomRun room' evs')) \<subseteq> fst ` set (Enemies room'))
       \<and> (\<forall>room' rnd. GameState room' = ''gameover'' \<or> GameState room' = ''clear'' \<longrightarrow>
            \<not> BossSpawned (handleRestart room' rnd) \<and> Boss (handleRestart room' rnd) = None)
       \<and> (\<forall>roomID. \<not> BossSpawned (newGameRoom roomID) \<and> Boss (newGameRoom roomID) = None)"
proof -
  have count: "bossSpawns room evs = (if BossSpawned (roomRun room evs) then 1 else 0)"
    using bossSpawns_flag [of room evs] assms by simp
  have iff: "BossSpawned (roomRun room evs) \<longleftrightarrow>
         (\<exists>pre uuid r1 r2 r3 post. evs = pre @ EnemyTick uuid r1 r2 r3 # post \<and>
            GameState (roomRun room pre) = ''playing'' \<and> EnemiesDefeated (roomRun room pre) \<ge> 20)"
    using assms(3,1) by (rule roomRun_flag_iff)
  have c1: "bossSpawns room evs \<le> 1" by (simp add: count)
  have c2: "bossSpawns room evs = 1 \<longleftrightarrow>
            (\<exists>pre uuid r1 r2 r3 post. evs = pre @ EnemyTick uuid r1 r2 r3 # post \<and>
               GameState (roomRun room pre) = ''playing'' \<and>
               EnemiesDefeated (roomRun room pre) \<ge> 20)"
    unfolding iff [symmetric] by (simp add: count)
  have c3: "\<forall>room' ev. Boss room' = None \<and> Boss (roomStep room' ev) \<noteq> None \<longrightarrow>
            (\<exists>uuid r1 r2 r3. ev = EnemyTick uuid r1 r2 r3) \<and> GameState room' = ''playing'' \<and>
            EnemiesDefeated room' \<ge> 20 \<and> \<not> BossSpawned room' \<and>
            BossSpawned (roomStep room' ev)"
    using roomStep_boss_appears by blast
  have c4: "\<forall>room' uuid r1 r2 r3. BossSpawned room' \<longrightarrow> enemyTick room' uuid r1 r2 r3 = room'"
    by (simp add: enemyTick_def createEnemy_def)
  have c5: "\<forall>room' evs'. BossSpawned room' \<and> (\<forall>ev \<in> set evs'. \<not> isRestart ev) \<longrightarrow>
            BossSpawned (roomRun room' evs') \<and>
            fst ` set (Enemies (roomRun room' evs')) \<subseteq> fst ` set (Enemies room')"
    using roomRun_flag_stays roomRun_enemyKeys by blast
  have c6: "\<forall>room' rnd. GameState room' = ''gameover'' \<or> GameState room' = ''clear'' \<longrightarrow>
            \<not> BossSpawned (handleRestart room' rnd) \<and> Boss (handleRestart room' rnd) = None"
    by (auto simp: handleRestart_def)
  have c7: "\<forall>roomID. \<not> BossSpawned (newGameRoom roomID) \<and> Boss (newGameRoom roomID) = None"
    by (simp add: newGameRoom_def)
  show ?thesis
    using c1 c2 c3 c4 c5 c6 c7 by (intro conjI)
qed

theorem C7_witness:
  "list_all (\<lambda>ev. \<not> isRestart ev) exSpawnEvents \<and> Boss exReadyRoom = None
   \<and> \<not> BossSpawned exReadyRoom
   \<and> EnemiesDefeated (roomRun exReadyRoom (take 1 exSpawnEvents)) = 19
   \<and> map fst (Enemies (roomRun exReadyRoom (take 1 exSpawnEvents))) = [''e1'', ''e2'']
   \<and> EnemiesDefeated (roomRun exReadyRoom (take 2 exSpawnEvents)) = 20
   \<and> GameState (roomRun exReadyRoom (take 2 exSpawnEvents)) = ''playing''
   \<and> bossSpawns exReadyRoom exSpawnEvents = 1
   \<and> BossSpawned (roomRun exReadyRoom exSpawnEvents)
   \<and> map fst (Enemies (roomRun exReadyRoom exSpawnEvents)) = [''e2'']"
proof -
  have hyp: "\<forall>ev \<in> set exSpawnEvents. \<not> isRestart ev" "Boss exReadyRoom = None"
    "\<not> BossSpawned exReadyRoom"
    by (simp_all add: exSpawnEvents_def exReadyRoom_def ex_defs)
  have one: "EnemiesDefeated (roomRun exReadyRoom (take 1 exSpawnEvents)) = 19"
    "map fst (Enemies (roomRun exReadyRoom (take 1 exSpawnEvents))) = [''e1'', ''e2'']"
    by (simp_all add: exSpawnEvents_def exReadyRoom_def ex_defs enemyTick_def createEnemy_def)
  have two: "EnemiesDefeated (roomRun exReadyRoom (take 2 exSpawnEvents)) = 20"
    "GameState (roomRun exReadyRoom (take 2 exSpawnEvents)) = ''playing''"
    by (simp_all add: exSpawnEvents_def exReadyRoom_def ex_defs enemyTick_def createEnemy_def
        updateGame_def movePlayer_def bulletStep_def bulletVsEnemies_def enemyStep_def
        bossPhase_def checkCollision_def Let_def)
  have full: "BossSpawned (roomRun exReadyRoom exSpawnEvents)"
    "map fst (Enemies (roomRun exReadyRoom exSpawnEvents)) = [''e2'']"
    by (simp_all add: exSpawnEvents_def exReadyRoom_def ex_defs enemyTick_def createEnemy_def
        createBoss_def updateGame_def movePlayer_def bulletStep_def bulletVsEnemies_def
        enemyStep_def bossPhase_def checkCollision_def Let_def)
  note claim = C7_boss_spawns_once [OF hyp]
  have split: "exSpawnEvents = take 2 exSpawnEvents @ EnemyTick ''u'' 0 0 0 # [EnemyTick ''e3'' 70 1 0]"
    by (simp add: exSpawnEvents_def)
  have ex: "\<exists>pre uuid r1 r2 r3 post. exSpawnEvents = pre @ EnemyTick uuid r1 r2 r3 # post \<and>
               GameState (roomRun exReadyRoom pre) = ''playing'' \<and>
               EnemiesDefeated (roomRun exReadyRoom pre) \<ge> 20"
    by (intro exI conjI) (rule split, simp_all only: two order_refl)
  have "bossSpawns exReadyRoom exSpawnEvents = 1 \<longleftrightarrow>
          (\<exists>pre uuid r1 r2 r3 post. exSpawnEvents = pre @ EnemyTick uuid r1 r2 r3 # post \<and>
               GameState (roomRun exReadyRoom pre) = ''playing'' \<and>
               EnemiesDefeated (roomRun exReadyRoom pre) \<ge> 20)"
    using claim by (elim conjE)
  then have count: "bossSpawns exReadyRoom exSpawnEvents = 1"
    using ex by (rule iffD2)
  show ?thesis
    using hyp one two count full by (simp only: list_all_iff simp_thms)
qed

text \<open>
  C8. The claim asks that no room ever holds more than four players. The search of
  the matchmaker does skip every room that has four players or is not
  \<^verbatim>\<open>playing\<close>, but the player is inserted in a later critical section. In
  \<open>exRace\<close> three clients are admitted one after the other into room \<open>r1\<close>; then
  two handlers run the search before either inserts its player. Both find \<open>r1\<close>
  with three players, both insert, and \<open>r1\<close> holds five players.
\<close>

theorem C8_two_admissions_overfill_room:
  "map (\<lambda>(rid, room). (rid, map fst (Players room), GameState room)) (run (take 6 exRace)) =
     [(''r1'', [''c1'', ''c2'', ''c3''], ''playing'')]
   \<and> findRoom (run (take 6 exRace)) = Some ''r1''
   \<and> findRoom (run (take 7 exRace)) = Some ''r1''
   \<and> map (\<lambda>(rid, room). (rid, map fst (Players room), GameState room)) (run (take 8 exRace)) =
     [(''r1'', [''c1'', ''c2'', ''c3''], ''playing'')]
   \<and> map (\<lambda>(rid, room). (rid, map fst (Players room), GameState room)) (run exRace) =
     [(''r1'', [''c1'', ''c2'', ''c3'', ''c4'', ''c5''], ''playing'')]
   \<and> map (\<lambda>(rid, room). length (Players room)) (run exRace) = [5]"
  by (simp add: run_def exRace_def selectRoom_def joinRoom_def addPlayer_def newGameRoom_def
      newPlayer_def Let_def)

text \<open>
  C9. \<^verbatim>\<open>checkCollision\<close> is the conjunction of four strict comparisons, it is
  symmetric in its two arguments, and an entity does not collide with a copy of
  itself shifted right by its own width or down by its own height: touching edges
  are not an overlap.
\<close>

theorem C9_checkCollision_symmetric_exclusive:
  fixes a b :: Entity
  shows "(checkCollision a b \<longleftrightarrow>
            (X a < X b + real_of_int (Width b) \<and> X a + real_of_int (Width a) > X b \<and>
             Y a < Y b + real_of_int (Height b) \<and> Y a + real_of_int (Height a) > Y b))
       \<and> checkCollision a b = checkCollision b a
       \<and> \<not> checkCollision a (a\<lparr>X := X a + real_of_int (Width a)\<rparr>)
       \<and> \<not> checkCollision (a\<lparr>X := X a + real_of_int (Width a)\<rparr>) a
       \<and> \<not> checkCollision a (a\<lparr>Y := Y a + real_of_int (Height a)\<rparr>)
       \<and> \<not> checkCollision (a\<lparr>Y := Y a + real_of_int (Height a)\<rparr>) a"
  by (auto simp: checkCollision_def)

text \<open>
  C10, as the code has it. The Boss's projectiles are written to
  \<^verbatim>\<open>gameRoom.Bullets\<close>, the map that \<^verbatim>\<open>createBullet\<close> writes the players' bullets
  to, and the projectile pass of \<^verbatim>\<open>updateGame\<close> takes every entry of that map
  through the same step, which never reads \<^verbatim>\<open>Type\<close>. When a tick comes to a
  \<^verbatim>\<open>bossBullet\<close> that, after its move, is inside the field, does not collide with
  the Boss and collides with an enemy, the step deletes the bullet and the first
  such enemy and adds 1 to \<^verbatim>\<open>EnemiesDefeated\<close>, as it does for a bullet of type
  \<^verbatim>\<open>bullet\<close>; at the end of the tick both are gone and the counter is higher.
\<close>

theorem C10_bossBullet_in_field_hits_enemy:
  fixes room :: GameRoom and b :: Entity and pre :: "(string \<times> Entity) list"
  defines "bullet \<equiv> b\<lparr>X := X b + VelocityX b, Y := Y b + VelocityY b\<rparr>"
      and "before \<equiv> fold bulletStep pre
             (room\<lparr>Players := map (\<lambda>(pid, player). (pid, movePlayer player)) (Players room)\<rparr>)"
  assumes "GameState room = ''playing''"
      and "Bullets room = pre @ (bid, b) # post"
      and "bid \<notin> fst ` set post" and "bulletID \<noteq> bid"
      and "Type b = ''bossBullet''"
      and "\<not> (Y bullet < 0 \<or> Y bullet > 600 \<or> X bullet < 0 \<or> X bullet > 800)"
      and "\<forall>boss. Boss before = Some boss \<longrightarrow> \<not> checkCollision bullet boss"
      and "Enemies before = epre @ (enemyID, enemy) # epost"
      and "\<forall>(k, e) \<in> set epre. \<not> checkCollision bullet e"
      and "checkCollision bullet enemy"
      and "distinct (map fst (Enemies before))"
  shows "updateGame room bulletID r1 r2 r3 =
           (let hit = bulletStep (bid, b) before;
                room2 = fold bulletStep post hit;
                room3 = fold enemyStep (Enemies room2) room2
            in bossPhase room3 bulletID r1 r2 r3)
       \<and> bulletStep (bid, b) before =
           before\<lparr>Bullets := AList.delete bid (Bullets before),
                  Enemies := epre @ epost,
                  EnemiesDefeated := EnemiesDefeated before + 1,
                  Players := creditShooter bullet (Players before)\<rparr>
       \<and> bulletStep (bid, b\<lparr>Type := ''bullet''\<rparr>) before = bulletStep (bid, b) before
       \<and> bid \<notin> fst ` set (Bullets (updateGame room bulletID r1 r2 r3))
       \<and> enemyID \<notin> fst ` set (Enemies (updateGame room bulletID r1 r2 r3))
       \<and> EnemiesDefeated before + 1 \<le> EnemiesDefeated (updateGame room bulletID r1 r2 r3)
       \<and> (\<forall>gameRoom boss newID r1 r2 r3.
            Boss gameRoom = Some boss \<and> Intn 60 r1 < 5 \<longrightarrow>
            (\<exists>e. map_of (Bullets (bossPhase gameRoom newID r1 r2 r3)) newID = Some e \<and>
                 Type e = ''bossBullet''))
       \<and> (\<forall>gameRoom player newID.
            GameState gameRoom = ''playing'' \<longrightarrow>
            (\<exists>e. map_of (Bullets (createBullet gameRoom player newID)) newID = Some e \<and>
                 Type e = ''bullet''))"
proof -
  define hit where "hit = bulletStep (bid, b) before"
  define room2 where "room2 = fold bulletStep post hit"
  define room3 where "room3 = fold enemyStep (Enemies room2) room2"
  have tick: "updateGame room bulletID r1 r2 r3 = bossPhase room3 bulletID r1 r2 r3"
    using assms(3,4)
    by (simp add: updateGame_def Let_def room3_def room2_def hit_def before_def)
  have first: "hitEnemy bullet (Enemies before) = Some enemyID"
    using assms(10-12) by (simp add: hitEnemy_first)
  have del: "AList.delete enemyID (Enemies before) = epre @ epost"
    using assms(10,13) by (simp add: delete_distinct_split)
  have step0: "bulletStep (bid, b) before =
           before\<lparr>Bullets := AList.delete bid (Bullets before),
                  Enemies := AList.delete enemyID (Enemies before),
                  EnemiesDefeated := EnemiesDefeated before + 1,
                  Players := creditShooter bullet (Players before)\<rparr>"
    unfolding bullet_def
    by (rule bulletStep_enemy) (use assms(8,9) first in \<open>simp_all add: bullet_def [symmetric]\<close>)
  then have c2: "bulletStep (bid, b) before =
           before\<lparr>Bullets := AList.delete bid (Bullets before),
                  Enemies := epre @ epost,
                  EnemiesDefeated := EnemiesDefeated before + 1,
                  Players := creditShooter bullet (Players before)\<rparr>"
    by (simp add: del)
  have c3: "bulletStep (bid, b\<lparr>Type := ''bullet''\<rparr>) before = bulletStep (bid, b) before"
    by (rule bulletStep_Type) (use assms(8,9) first in \<open>simp_all add: bullet_def [symmetric]\<close>)
  have hitB: "fst ` set (Bullets hit) \<subseteq> UNIV - {bid}"
    using delete_notin_dom [of bid "Bullets before"] by (auto simp: hit_def c2)
  have "fst ` set post \<subseteq> UNIV - {bid}" using assms(5) by auto
  then have "fst ` set (Bullets room2) \<subseteq> UNIV - {bid}"
    unfolding room2_def using hitB by (rule fold_bulletStep_bulletKeys)
  then have "fst ` set (Bullets room3) \<subseteq> UNIV - {bid}" by (simp add: room3_def)
  then have c4: "bid \<notin> fst ` set (Bullets (updateGame room bulletID r1 r2 r3))"
    using bossPhase_bulletKeys [of room3 bulletID r1 r2 r3] assms(6) unfolding tick by blast
  have "enemyID \<notin> fst ` set (epre @ epost)"
    using assms(10,13) by auto
  then have "enemyID \<notin> fst ` set (Enemies hit)" by (simp add: hit_def c2)
  then have e2: "enemyID \<notin> fst ` set (Enemies room2)"
    using fold_bulletStep_enemyKeys [of post hit] unfolding room2_def by blast
  have "fst ` set (Enemies room3) \<subseteq> fst ` set (Enemies room2)"
    unfolding room3_def by (rule fold_enemyStep_enemyKeys) simp_all
  then have c5: "enemyID \<notin> fst ` set (Enemies (updateGame room bulletID r1 r2 r3))"
    using e2 unfolding tick by auto
  have "EnemiesDefeated hit = EnemiesDefeated before + 1" by (simp add: hit_def c2)
  then have "EnemiesDefeated before + 1 \<le> EnemiesDefeated room2"
    using fold_bulletStep_defeated [of hit post] by (simp add: room2_def)
  then have c6: "EnemiesDefeated before + 1 \<le> EnemiesDefeated (updateGame room bulletID r1 r2 r3)"
    unfolding tick by (simp add: room3_def)
  have c1: "updateGame room bulletID r1 r2 r3 =
           (let hit = bulletStep (bid, b) before;
                room2 = fold bulletStep post hit;
                room3 = fold enemyStep (Enemies room2) room2
            in bossPhase room3 bulletID r1 r2 r3)"
    by (simp add: tick room3_def room2_def hit_def Let_def)
  have c7: "\<forall>gameRoom boss newID r1 r2 r3.
            Boss gameRoom = Some boss \<and> Intn 60 r1 < 5 \<longrightarrow>
            (\<exists>e. map_of (Bullets (bossPhase gameRoom newID r1 r2 r3)) newID = Some e \<and>
                 Type e = ''bossBullet'')"
    using bossPhase_stores by blast
  have c8: "\<forall>gameRoom player newID.
            GameState gameRoom = ''playing'' \<longrightarrow>
            (\<exists>e. map_of (Bullets (createBullet gameRoom player newID)) newID = Some e \<and>
                 Type e = ''bullet'')"
    using createBullet_stores by blast
  show ?thesis
    using c1 c2 c3 c4 c5 c6 c7 c8 by (intro conjI)
qed

text \<open>
  C10 as stated fails on a bullet that has left the field: in \<open>exEdgeRoom\<close> a
  \<^verbatim>\<open>bossBullet\<close> moves to \<open>x = 802\<close>, where it overlaps an enemy. The bounds check
  of the projectile pass comes first and deletes the bullet alone; the enemy
  stays, and \<^verbatim>\<open>EnemiesDefeated\<close> stays at 20.
\<close>

theorem C10_counterexample:
  "Type exEdgeBullet = ''bossBullet''
   \<and> checkCollision (exEdgeBullet\<lparr>X := X exEdgeBullet + VelocityX exEdgeBullet,
                                  Y := Y exEdgeBullet + VelocityY exEdgeBullet\<rparr>) exEdgeEnemy
   \<and> updateGame exEdgeRoom ''n'' 59 0 0 =
       exEdgeRoom\<lparr>Bullets := [], Enemies := [(''e1'', exEdgeEnemy\<lparr>X := 786, Y := 321\<rparr>)],
                  Boss := Some (exBoss\<lparr>X := 352\<rparr>)\<rparr>
   \<and> EnemiesDefeated (updateGame exEdgeRoom ''n'' 59 0 0) = 20"
  by (simp add: updateGame_def ex_defs movePlayer_def bulletStep_def bulletVsEnemies_def
      enemyStep_def checkCollision_def bossPhase_def bossTouch_def Let_def)

theorem C10_witness:
  "GameState exEnemyRoom = ''playing'' \<and> Type exBossBullet = ''bossBullet''
   \<and> Bullets exEnemyRoom = [] @ (''bb'', exBossBullet) # []
   \<and> Enemies exEnemyRoom = [] @ (''e1'', exEnemy) # []
   \<and> checkCollision (exBossBullet\<lparr>X := X exBossBullet + VelocityX exBossBullet,
                                  Y := Y exBossBullet + VelocityY exBossBullet\<rparr>) exEnemy
   \<and> ''bb'' \<notin> fst ` set (Bullets (updateGame exEnemyRoom ''n'' 59 0 0))
   \<and> ''e1'' \<notin> fst ` set (Enemies (updateGame exEnemyRoom ''n'' 59 0 0))
   \<and> 21 \<le> EnemiesDefeated (updateGame exEnemyRoom ''n'' 59 0 0)
   \<and> updateGame exEnemyRoom ''n'' 59 0 0 =
       exEnemyRoom\<lparr>Bullets := [], Enemies := [], EnemiesDefeated := 21,
                   Boss := Some (exBoss\<lparr>X := 352\<rparr>)\<rparr>"
proof -
  define moved where
    "moved = exBossBullet\<lparr>X := X exBossBullet + VelocityX exBossBullet,
                          Y := Y exBossBullet + VelocityY exBossBullet\<rparr>"
  define before where
    "before = fold bulletStep []
       (exEnemyRoom\<lparr>Players := map (\<lambda>(pid, player). (pid, movePlayer player))
                                   (Players exEnemyRoom)\<rparr>)"
  have before: "before = exEnemyRoom"
    by (simp add: before_def ex_defs movePlayer_def)
  have eval: "updateGame exEnemyRoom ''n'' 59 0 0 =
       exEnemyRoom\<lparr>Bullets := [], Enemies := [], EnemiesDefeated := 21,
                   Boss := Some (exBoss\<lparr>X := 352\<rparr>)\<rparr>"
    by (simp add: updateGame_def ex_defs movePlayer_def bulletStep_def bulletVsEnemies_def
        enemyStep_def checkCollision_def bossPhase_def bossTouch_def Let_def)
  have h1: "GameState exEnemyRoom = ''playing''"
    and h2: "Bullets exEnemyRoom = [] @ (''bb'', exBossBullet) # []"
    and h3: "''bb'' \<notin> fst ` set ([] :: (string \<times> Entity) list)"
    and h4: "''n'' \<noteq> ''bb''"
    and h5: "Type exBossBullet = ''bossBullet''"
    and h6: "\<not> (Y moved < 0 \<or> Y moved > 600 \<or> X moved < 0 \<or> X moved > 800)"
    and h8: "Enemies exEnemyRoom = [] @ (''e1'', exEnemy) # []"
    and h9: "\<forall>(k, e) \<in> set ([] :: (string \<times> Entity) list). \<not> checkCollision moved e"
    and h10: "checkCollision moved exEnemy"
    and h11: "distinct (map fst (Enemies exEnemyRoom))"
    by (simp_all add: moved_def ex_defs checkCollision_def)
  have h7: "\<forall>boss. Boss before = Some boss \<longrightarrow> \<not> checkCollision moved boss"
    unfolding before by (simp add: moved_def ex_defs checkCollision_def)
  note claim = C10_bossBullet_in_field_hits_enemy [where room = exEnemyRoom and b = exBossBullet
      and pre = "[]" and bid = "''bb''" and post = "[]" and bulletID = "''n''"
      and epre = "[]" and enemyID = "''e1''" and enemy = exEnemy and epost = "[]"
      and ?r1.0 = 59 and ?r2.0 = 0 and ?r3.0 = 0,
      folded moved_def before_def, OF h1 h2 h3 h4 h5 h6 h7 h8 [folded before] h9 h10
      h11 [folded before]]
  have gone: "''bb'' \<notin> fst ` set (Bullets (updateGame exEnemyRoom ''n'' 59 0 0))"
    using claim by (elim conjE)
  have dead: "''e1'' \<notin> fst ` set (Enemies (updateGame exEnemyRoom ''n'' 59 0 0))"
    using claim by (elim conjE)
  have "EnemiesDefeated before + 1 \<le> EnemiesDefeated (updateGame exEnemyRoom ''n'' 59 0 0)"
    using claim by (elim conjE)
  then have more: "21 \<le> EnemiesDefeated (updateGame exEnemyRoom ''n'' 59 0 0)"
    by (simp add: before ex_defs)
  show ?thesis
    using h1 h2 h5 h8 h10 gone dead more eval unfolding moved_def by (intro conjI)
qed

end
